theory Spec2Isabelle
  imports Main "HOL-Library.Sublist" "HOL-Library.AList"
begin

section \<open>close-stale-prs: the staleness engine of \<open>src/stale-prs.ts\<close>\<close>

text \<open>
  The development follows \<open>StalePrFinder\<close>.  Conventions of the embedding:
  \<^item> A point in time is its number of milliseconds since the epoch (what \<open>Date.getTime()\<close>
    returns).  The hosting service delivers timestamps as ISO-8601 strings in UTC of one fixed
    shape, on which string comparison (\<open>localeCompare\<close>, \<open>>\<close>) and \<open>new Date(...)\<close> agree
    with the order of the instants; a timestamp field is therefore a \<open>time option\<close>, with
    \<open>None\<close> for \<open>null\<close>, \<open>undefined\<close> and the empty string (the falsy values).
  \<^item> Day counts are integers (\<open>verifyInt\<close> in \<open>index.ts\<close> admits nothing else), so the
    arithmetic of \<open>olderThanDays\<close> is exact.
  \<^item> What the service returns for one pull request (check runs, statuses, reviews, commits,
    comments, mergeability) is a snapshot carried by the \<open>pull\<close> record, and its requests
    succeed (the module has no error path of its own).  The one listing that follows a write
    within an iteration, the comments after a merge-conflict warning, is read only when there
    is a verdict, and then no such warning was written.  \<open>Date.now()\<close> is one reading
    \<open>now\<close> per pull request.
  \<^item> The sink is explicit: the state holds the \<open>Metrics\<close>, the list of mutating calls sent
    to the service, and the lines that the mutating operations print in dry-run mode.  The
    informational \<open>console.log\<close> output of \<open>findAll\<close> is not recorded.
\<close>

subsection \<open>Data\<close>

type_synonym time = int

record StalePrFinderProps =
  staleDays :: int
  responseDays :: int
  mergeConflictWarningDays :: "int option"
  mergeConflictWarning :: "string option"
  importantChecksRegex :: "(string \<Rightarrow> bool) option"
    \<comment> \<open>the regular expression, as the predicate \<open>\<lambda>id. !!id.match(regex)\<close>; built by
        \<open>new RegExp(...)\<close> without flags, matching has no state\<close>
  skipLabels :: "string list option"
  warnMessage :: "string option"
  closeMessage :: "string option"
  closeLabel :: "string option"
  dryRun :: bool
    \<comment> \<open>an absent \<open>dryRun\<close> is falsy: \<open>False\<close>\<close>

datatype Action = Nothing | Warn | Close

datatype Marker = STALE_PR | MERGE_CONFLICTS

record Metrics =
  prsProcessed :: nat
  skipped :: nat
  stalePrs :: nat
  staleDueToChangesRequested :: nat
  staleDueToBuildFailing :: nat
  staleDueToMergeConflicts :: nat
  warned :: nat
  closed :: nat

record ReviewState =
  rs_state :: string
  rs_when :: time

record FailedCheck =
  fc_when :: time

record Stale =
  reason :: string
  since :: time

text \<open>The records of the hosting service, with the fields the code reads.\<close>

record check_run =
  run_name :: string
  run_completed_at :: "time option"
  run_conclusion :: "string option"

record commit_status =
  status_context :: string
  status_updated_at :: "time option"
  status_state :: string

record review =
  review_author_association :: string
  review_submitted_at :: "time option"
  review_state :: string

record issue_comment =
  comment_body :: "string option"
  comment_created_at :: time
  comment_author_association :: string
  comment_submitted_at :: "time option"
    \<comment> \<open>read by \<open>memberReviewed\<close>; the service's comments carry no such field, so it is
        \<open>None\<close> on every comment the service delivers\<close>

record commit =
  commit_committer_date :: "time option"
    \<comment> \<open>\<open>c.commit.committer?.date\<close>\<close>

datatype label = LabelString string | LabelObject "string option"
  \<comment> \<open>\<open>string | { name?: string }\<close>\<close>

record pull =
  pr_number :: nat
  pr_labels :: "label list"
  pr_check_runs :: "check_run list"
  pr_statuses :: "commit_status list"
  pr_reviews :: "review list"
  pr_commits :: "commit list"
  pr_mergeable_state :: string
  pr_comments :: "issue_comment list"

text \<open>The sink: the mutating calls of the service's API.\<close>

datatype call =
    CreateComment nat string
  | AddLabels nat "string list"
  | UpdateClosed nat

record run_state =
  metrics :: Metrics
  calls :: "call list"
  dry_log :: "string list"

definition initial_metrics :: Metrics where
  "initial_metrics =
     \<lparr>prsProcessed = 0, skipped = 0, stalePrs = 0, staleDueToChangesRequested = 0,
      staleDueToBuildFailing = 0, staleDueToMergeConflicts = 0, warned = 0, closed = 0\<rparr>"

definition initial_state :: run_state where
  "initial_state = \<lparr>metrics = initial_metrics, calls = [], dry_log = []\<rparr>"

subsection \<open>JavaScript helpers\<close>

text \<open>\<open>a > b\<close> on two timestamp fields: false as soon as one side is \<open>null\<close>.\<close>

fun js_gt :: "time option \<Rightarrow> time option \<Rightarrow> bool" where
  "js_gt (Some a) (Some b) = (b < a)"
| "js_gt _ _ = False"

text \<open>
  A \<open>Record<string, A> = {}\<close> is an association list of its own properties, in insertion
  order (JavaScript lists keys that are array indices first; nothing here depends on the
  order).  Reading \<open>ret[key]\<close> also finds what \<open>{}\<close> inherits from
  \<open>Object.prototype\<close>; these are the inherited names.
\<close>

definition inheritedKey :: "string \<Rightarrow> bool" where
  "inheritedKey key \<longleftrightarrow> key \<in> set
     [''constructor'', ''__defineGetter__'', ''__defineSetter__'', ''hasOwnProperty'',
      ''__lookupGetter__'', ''__lookupSetter__'', ''isPrototypeOf'', ''propertyIsEnumerable'',
      ''toString'', ''valueOf'', ''__proto__'', ''toLocaleString'']"

text \<open>\<open>Object.fromEntries\<close> and \<open>Object.assign\<close>: later entries overwrite earlier ones.\<close>

definition assign :: "(string \<times> 'a) list \<Rightarrow> (string \<times> 'a) list \<Rightarrow> (string \<times> 'a) list" where
  "assign ret src = fold (\<lambda>(k, v) r. AList.update k v r) src ret"

definition fromEntries :: "(string \<times> 'a) list \<Rightarrow> (string \<times> 'a) list" where
  "fromEntries es = assign [] es"

text \<open>\<open>s.includes(sub)\<close>.\<close>

fun str_includes :: "string \<Rightarrow> string \<Rightarrow> bool" where
  "str_includes [] sub = (sub = [])"
| "str_includes (c # cs) sub = (prefix sub (c # cs) \<or> str_includes cs sub)"

text \<open>\<open>s.replace(/pat/, rep)\<close> for a literal pattern: the first occurrence only.\<close>

fun replaceFirst :: "string \<Rightarrow> string \<Rightarrow> string \<Rightarrow> string" where
  "replaceFirst pat rep [] = (if pat = [] then rep else [])"
| "replaceFirst pat rep (c # cs) =
     (if prefix pat (c # cs) then rep @ drop (length pat) (c # cs)
      else c # replaceFirst pat rep cs)"

text \<open>Numbers in template strings.\<close>

definition digit :: "nat \<Rightarrow> char" where
  "digit d = char_of (48 + d)"

fun showNat :: "nat \<Rightarrow> string" where
  "showNat n = (if n < 10 then [digit n] else showNat (n div 10) @ [digit (n mod 10)])"

definition showInt :: "int \<Rightarrow> string" where
  "showInt i = (if i < 0 then CHR ''-'' # showNat (nat (- i)) else showNat (nat i))"

fun joinComma :: "string list \<Rightarrow> string" where
  "joinComma [] = []"
| "joinComma [x] = x"
| "joinComma (x # y # ys) = x @ '','' @ joinComma (y # ys)"

subsection \<open>Free functions of the module\<close>

text \<open>\<open>mostRecent(xs, idKey, timeKey)\<close>, lines 390--400.\<close>

fun mostRecent_loop ::
  "('a \<Rightarrow> string) \<Rightarrow> ('a \<Rightarrow> time option) \<Rightarrow> (string \<times> 'a) list \<Rightarrow> 'a list \<Rightarrow> (string \<times> 'a) list"
where
  "mostRecent_loop idKey timeKey ret [] = ret"
| "mostRecent_loop idKey timeKey ret (x # xs) =
     mostRecent_loop idKey timeKey
       (let key = idKey x in
        if (case map_of ret key of
              None \<Rightarrow> \<not> inheritedKey key
            | Some y \<Rightarrow> js_gt (timeKey x) (timeKey y))
        then AList.update key x ret
        else ret)
       xs"

definition mostRecent :: "'a list \<Rightarrow> ('a \<Rightarrow> string) \<Rightarrow> ('a \<Rightarrow> time option) \<Rightarrow> (string \<times> 'a) list" where
  "mostRecent xs idKey timeKey = mostRecent_loop idKey timeKey [] xs"

text \<open>\<open>maxTime(xs)\<close>, lines 402--405.\<close>

definition maxTime :: "(string \<times> FailedCheck) list \<Rightarrow> time option" where
  "maxTime xs =
     (case map (\<lambda>(k, c). fc_when c) xs of
        [] \<Rightarrow> None
      | t # ts \<Rightarrow> Some (fold max ts t))"

text \<open>\<open>marker(m)\<close>, lines 415--417.\<close>

fun markerName :: "Marker \<Rightarrow> string" where
  "markerName STALE_PR = ''STALE PR''"
| "markerName MERGE_CONFLICTS = ''MERGE CONFLICTS''"

definition marker :: "Marker \<Rightarrow> string" where
  "marker m = ''<!--'' @ markerName m @ ''-->''"

subsection \<open>Fact extraction\<close>

text \<open>\<open>failingChecks\<close>, lines 257--275.\<close>

definition failingChecks :: "check_run list \<Rightarrow> commit_status list \<Rightarrow> (string \<times> FailedCheck) list" where
  "failingChecks check_runs statuses =
     (let ret0 = [];
          uniqueChecks = mostRecent check_runs run_name run_completed_at;
          ret1 = assign ret0 (fromEntries
                   (map (\<lambda>c. (run_name c, \<lparr>fc_when = the (run_completed_at c)\<rparr>))
                      (filter (\<lambda>c. run_conclusion c = Some ''failure'' \<and> run_completed_at c \<noteq> None)
                         (map snd uniqueChecks))));
          uniqueStatuses = mostRecent statuses status_context status_updated_at;
          ret2 = assign ret1 (fromEntries
                   (map (\<lambda>c. (status_context c, \<lparr>fc_when = the (status_updated_at c)\<rparr>))
                      (filter (\<lambda>c. status_state c = ''failure'' \<and> status_updated_at c \<noteq> None)
                         (map snd uniqueStatuses))))
      in ret2)"

text \<open>\<open>reviewState\<close>, lines 280--306.  \<open>sort_key\<close> is a stable ascending sort, as
  \<open>Array.prototype.sort\<close> with \<open>a.localeCompare(b)\<close> is.\<close>

definition memberReviews :: "review list \<Rightarrow> review list" where
  "memberReviews reviews =
     filter (\<lambda>r. review_submitted_at r \<noteq> None)
       (filter (\<lambda>r. review_author_association r = ''MEMBER'') reviews)"

definition reviewState :: "review list \<Rightarrow> ReviewState option" where
  "reviewState reviews =
     (let sorted_reviews = sort_key (\<lambda>r. the (review_submitted_at r)) (memberReviews reviews);
          cr = filter (\<lambda>r. review_state r = ''CHANGES_REQUESTED'') sorted_reviews;
          approved = filter (\<lambda>r. review_state r = ''APPROVED'') sorted_reviews
      in if cr \<noteq> [] then
           Some \<lparr>rs_state = ''changes_requested'', rs_when = the (review_submitted_at (last cr))\<rparr>
         else if approved \<noteq> [] then
           Some \<lparr>rs_state = ''approved'', rs_when = the (review_submitted_at (hd approved))\<rparr>
         else None)"

text \<open>\<open>lastCommit\<close>, lines 308--313.\<close>

definition lastCommit :: "commit list \<Rightarrow> time option" where
  "lastCommit commits =
     (let commitTimes = filter (\<lambda>c. c \<noteq> None) (map commit_committer_date commits)
      in if commitTimes = [] then None else last commitTimes)"

text \<open>\<open>hasSkipLabel\<close>, lines 315--321.\<close>

definition hasSkipLabel :: "StalePrFinderProps \<Rightarrow> label list \<Rightarrow> bool" where
  "hasSkipLabel props labels =
     (case skipLabels props of
        None \<Rightarrow> False
      | Some skip \<Rightarrow>
          list_ex (\<lambda>l. case l of None \<Rightarrow> False | Some n \<Rightarrow> n \<noteq> [] \<and> n \<in> set skip)
            (map (\<lambda>l. case l of LabelString s \<Rightarrow> Some s | LabelObject n \<Rightarrow> n) labels))"

text \<open>\<open>mostRecentWarnings\<close>, lines 326--344: the comments newest first, the first hit per
  marker kept.\<close>

fun mostRecentWarnings_loop :: "(Marker \<rightharpoonup> time) \<Rightarrow> issue_comment list \<Rightarrow> (Marker \<rightharpoonup> time)" where
  "mostRecentWarnings_loop ret [] = ret"
| "mostRecentWarnings_loop ret (c # cs) =
     mostRecentWarnings_loop
       (fold (\<lambda>m r.
            if (case comment_body c of None \<Rightarrow> False | Some b \<Rightarrow> str_includes b (marker m)) \<and> r m = None
            then r(m \<mapsto> comment_created_at c) else r)
          [STALE_PR, MERGE_CONFLICTS] ret)
       cs"

definition mostRecentWarnings :: "issue_comment list \<Rightarrow> (Marker \<rightharpoonup> time)" where
  "mostRecentWarnings comments = mostRecentWarnings_loop Map.empty (rev comments)"

text \<open>\<open>memberReviewed\<close>, lines 349--366.\<close>

definition memberReviewed :: "review list \<Rightarrow> issue_comment list \<Rightarrow> bool" where
  "memberReviewed reviews comments =
     (let memberComments =
            filter (\<lambda>r. comment_submitted_at r \<noteq> None)
              (filter (\<lambda>r. comment_author_association r = ''MEMBER'') comments)
      in memberComments \<noteq> [] \<or> memberReviews reviews \<noteq> [])"

subsection \<open>Time predicates\<close>

text \<open>\<open>olderThanDays\<close>, \<open>stale\<close>, \<open>outOfGracePeriod\<close>, lines 244--255.\<close>

definition olderThanDays :: "time \<Rightarrow> time \<Rightarrow> int \<Rightarrow> bool" where
  "olderThanDays now t days = (let ms = days * 24 * 3600 * 1000 in t + ms < now)"

definition stale :: "StalePrFinderProps \<Rightarrow> time \<Rightarrow> time \<Rightarrow> bool" where
  "stale props now t = olderThanDays now t (staleDays props)"

definition outOfGracePeriod :: "StalePrFinderProps \<Rightarrow> time \<Rightarrow> time \<Rightarrow> bool" where
  "outOfGracePeriod props now t = olderThanDays now t (responseDays props)"

subsection \<open>The sink: \<open>addComment\<close>, \<open>addLabels\<close>, \<open>closeIssue\<close>, lines 206--242\<close>

definition addComment :: "StalePrFinderProps \<Rightarrow> nat \<Rightarrow> string \<Rightarrow> run_state \<Rightarrow> run_state" where
  "addComment props issue_number body s =
     (if dryRun props then
        s\<lparr>dry_log := dry_log s @ [showNat issue_number @ '': COMMENT '' @ body]\<rparr>
      else s\<lparr>calls := calls s @ [CreateComment issue_number body]\<rparr>)"

definition addLabels :: "StalePrFinderProps \<Rightarrow> nat \<Rightarrow> string list \<Rightarrow> run_state \<Rightarrow> run_state" where
  "addLabels props issue_number labels s =
     (if dryRun props then
        s\<lparr>dry_log := dry_log s @ [showNat issue_number @ '': ADD LABEL '' @ joinComma labels]\<rparr>
      else s\<lparr>calls := calls s @ [AddLabels issue_number labels]\<rparr>)"

definition closeIssue :: "StalePrFinderProps \<Rightarrow> nat \<Rightarrow> run_state \<Rightarrow> run_state" where
  "closeIssue props issue_number s =
     (if dryRun props then
        s\<lparr>dry_log := dry_log s @ [showNat issue_number @ '': CLOSE'']\<rparr>
      else s\<lparr>calls := calls s @ [UpdateClosed issue_number]\<rparr>)"

text \<open>\<open>addMergeConflictWarning\<close>, lines 200--204.\<close>

definition defaultMergeConflictWarning :: string where
  "defaultMergeConflictWarning =
     ''This PR cannot be merged because it has conflicts. Please resolve them. ''
     @ ''The PR will be considered stale and closed if it remains in an unmergeable state.''"

definition addMergeConflictWarning :: "StalePrFinderProps \<Rightarrow> nat \<Rightarrow> run_state \<Rightarrow> run_state" where
  "addMergeConflictWarning props pull_number s =
     (let message = (case mergeConflictWarning props of
                       Some m \<Rightarrow> m
                     | None \<Rightarrow> defaultMergeConflictWarning)
      in addComment props pull_number message s)"

text \<open>\<open>performAction\<close>, lines 174--198.\<close>

definition warnText :: "StalePrFinderProps \<Rightarrow> Stale option \<Rightarrow> string" where
  "warnText props st =
     (case warnMessage props of
        Some m \<Rightarrow> replaceFirst ''STATE'' (case st of Some x \<Rightarrow> reason x | None \<Rightarrow> []) m
      | None \<Rightarrow>
          ''This PR has been in '' @ (case st of Some x \<Rightarrow> reason x | None \<Rightarrow> ''undefined'')
          @ '' for '' @ showInt (staleDays props)
          @ '' days, and looks abandoned. It will be closed in '' @ showInt (responseDays props)
          @ '' days if no further commits are pushed to it.'')"

definition defaultCloseMessage :: string where
  "defaultCloseMessage = ''No more work is being done on this PR. It will now be closed.''"

definition performAction ::
  "StalePrFinderProps \<Rightarrow> nat \<Rightarrow> Action \<Rightarrow> Stale option \<Rightarrow> run_state \<Rightarrow> run_state"
where
  "performAction props pull_number action st s =
     (case action of
        Nothing \<Rightarrow> s
      | Warn \<Rightarrow>
          (let s1 = s\<lparr>metrics := (metrics s)\<lparr>warned := warned (metrics s) + 1\<rparr>\<rparr>;
               message = warnText props st
           in addComment props pull_number (marker STALE_PR @ [CHR 10] @ message) s1)
      | Close \<Rightarrow>
          (let s1 = s\<lparr>metrics := (metrics s)\<lparr>closed := closed (metrics s) + 1\<rparr>\<rparr>;
               message = (case closeMessage props of
                            Some m \<Rightarrow> m
                          | None \<Rightarrow> defaultCloseMessage);
               s2 = addComment props pull_number message s1;
               s3 = (case closeLabel props of
                       None \<Rightarrow> s2
                     | Some l \<Rightarrow> if l = [] then s2 else addLabels props pull_number [l] s2)
           in closeIssue props pull_number s3))"

subsection \<open>The loop body of \<open>findAll\<close>, lines 78--171\<close>

text \<open>The constructor's \<open>this.mergeConflictWarningDays = props.mergeConflictWarningDays ?? 3\<close>.\<close>

definition this_mergeConflictWarningDays :: "StalePrFinderProps \<Rightarrow> int" where
  "this_mergeConflictWarningDays props =
     (case mergeConflictWarningDays props of None \<Rightarrow> 3 | Some d \<Rightarrow> d)"

text \<open>Lines 102--109: the time of the build failure, over the important checks when a
  pattern is configured.\<close>

definition buildFailTime :: "StalePrFinderProps \<Rightarrow> (string \<times> FailedCheck) list \<Rightarrow> time option" where
  "buildFailTime props failing =
     (case importantChecksRegex props of
        None \<Rightarrow> maxTime failing
      | Some regex \<Rightarrow>
          (let importantChecks = fromEntries (filter (\<lambda>(id, _). regex id) failing)
           in maxTime importantChecks))"

text \<open>Lines 119--144: the verdict \<open>stale\<close>, with the counters and the merge-conflict
  warning that this block produces.\<close>

definition classify ::
  "StalePrFinderProps \<Rightarrow> time \<Rightarrow> nat \<Rightarrow> ReviewState option \<Rightarrow> time option \<Rightarrow> time option \<Rightarrow> bool
     \<Rightarrow> run_state \<Rightarrow> Stale option \<times> run_state"
where
  "classify props now pull_number rstate lcommit btime hasMergeConflicts s =
     (if rstate \<noteq> None \<and> lcommit \<noteq> None \<and> stale props now (rs_when (the rstate)) then
        (Some \<lparr>reason = ''CHANGES REQUESTED'', since = rs_when (the rstate)\<rparr>,
         s\<lparr>metrics := (metrics s)\<lparr>staleDueToChangesRequested :=
              staleDueToChangesRequested (metrics s) + 1\<rparr>\<rparr>)
      else if btime \<noteq> None \<and> stale props now (the btime) then
        (Some \<lparr>reason = ''BUILD FAILING'', since = the btime\<rparr>,
         s\<lparr>metrics := (metrics s)\<lparr>staleDueToBuildFailing :=
              staleDueToBuildFailing (metrics s) + 1\<rparr>\<rparr>)
      else if hasMergeConflicts then
        (if lcommit \<noteq> None \<and> stale props now (the lcommit) then
           (Some \<lparr>reason = ''MERGE CONFLICTS'', since = the lcommit\<rparr>,
            s\<lparr>metrics := (metrics s)\<lparr>staleDueToMergeConflicts :=
                 staleDueToMergeConflicts (metrics s) + 1\<rparr>\<rparr>)
         else if lcommit \<noteq> None \<and> this_mergeConflictWarningDays props \<noteq> 0
                 \<and> olderThanDays now (the lcommit) (this_mergeConflictWarningDays props) then
           (None, addMergeConflictWarning props pull_number s)
         else (None, s))
      else (None, s))"

text \<open>Lines 159--166: the action for a stale pull request.\<close>

definition resolveAction ::
  "StalePrFinderProps \<Rightarrow> time \<Rightarrow> Stale \<Rightarrow> (Marker \<rightharpoonup> time) \<Rightarrow> bool \<Rightarrow> Action"
where
  "resolveAction props now st warnings reviewed =
     (let warning = warnings STALE_PR
      in if warning = None \<or> the warning < since st \<or> \<not> reviewed then Warn
         else if outOfGracePeriod props now (the warning) then Close
         else Nothing)"

text \<open>Lines 94--113: the facts of one pull request.\<close>

record facts =
  f_reviewState :: "ReviewState option"
  f_lastCommit :: "time option"
  f_buildFailTime :: "time option"
  f_hasMergeConflicts :: bool

definition extractFacts :: "StalePrFinderProps \<Rightarrow> pull \<Rightarrow> facts" where
  "extractFacts props p =
     (let failing = failingChecks (pr_check_runs p) (pr_statuses p) in
      \<lparr>f_reviewState = reviewState (pr_reviews p),
       f_lastCommit = lastCommit (pr_commits p),
       f_buildFailTime = buildFailTime props failing,
       f_hasMergeConflicts = (pr_mergeable_state p = ''dirty'')\<rparr>)"

definition processPull :: "StalePrFinderProps \<Rightarrow> time \<Rightarrow> pull \<Rightarrow> run_state \<Rightarrow> run_state" where
  "processPull props now p s0 =
     (let s1 = s0\<lparr>metrics := (metrics s0)\<lparr>prsProcessed := prsProcessed (metrics s0) + 1\<rparr>\<rparr>
      in if hasSkipLabel props (pr_labels p) then
           s1\<lparr>metrics := (metrics s1)\<lparr>skipped := skipped (metrics s1) + 1\<rparr>\<rparr>
         else
           (let f = extractFacts props p;
                (verdict, s2) = classify props now (pr_number p) (f_reviewState f) (f_lastCommit f)
                                  (f_buildFailTime f) (f_hasMergeConflicts f) s1;
                warnings = mostRecentWarnings (pr_comments p);
                (action, s3) =
                  (case verdict of
                     None \<Rightarrow> (Nothing, s2)
                   | Some st \<Rightarrow>
                       (resolveAction props now st warnings
                          (memberReviewed (pr_reviews p) (pr_comments p)),
                        s2\<lparr>metrics := (metrics s2)\<lparr>stalePrs := stalePrs (metrics s2) + 1\<rparr>\<rparr>))
            in performAction props (pr_number p) action verdict s3))"

text \<open>\<open>findAll\<close>, lines 68--172: the open pull requests as listed, visited in reverse.
  \<open>clock n\<close> is the reading of \<open>Date.now()\<close> while pull request \<open>n\<close> is processed.\<close>

definition findAll :: "StalePrFinderProps \<Rightarrow> (nat \<Rightarrow> time) \<Rightarrow> pull list \<Rightarrow> run_state" where
  "findAll props clock pulls =
     fold (\<lambda>p. processPull props (clock (pr_number p)) p) (rev pulls) initial_state"

section \<open>Reference definitions\<close>

subsection \<open>Views of the loop body\<close>

text \<open>The state after line 79, the state after line 152, and the verdict block (lines
  119--144) applied to the facts of a pull request in the state that counts it.\<close>

definition counted :: "run_state \<Rightarrow> run_state" where
  "counted s = s\<lparr>metrics := (metrics s)\<lparr>prsProcessed := prsProcessed (metrics s) + 1\<rparr>\<rparr>"

definition countedStale :: "run_state \<Rightarrow> run_state" where
  "countedStale s = s\<lparr>metrics := (metrics s)\<lparr>stalePrs := stalePrs (metrics s) + 1\<rparr>\<rparr>"

definition classifyPull ::
  "StalePrFinderProps \<Rightarrow> time \<Rightarrow> pull \<Rightarrow> run_state \<Rightarrow> Stale option \<times> run_state"
where
  "classifyPull props now p s =
     (let f = extractFacts props p
      in classify props now (pr_number p) (f_reviewState f) (f_lastCommit f) (f_buildFailTime f)
           (f_hasMergeConflicts f) (counted s))"

text \<open>The relations between the counters that every run keeps.\<close>

definition metrics_consistent :: "Metrics \<Rightarrow> bool" where
  "metrics_consistent m \<longleftrightarrow>
     stalePrs m = staleDueToChangesRequested m + staleDueToBuildFailing m + staleDueToMergeConflicts m
     \<and> warned m + closed m \<le> stalePrs m
     \<and> skipped m \<le> prsProcessed m"

subsection \<open>Dry run\<close>

text \<open>The line that a mutating operation prints in dry-run mode in place of its call
  (lines 208, 220 and 233).\<close>

fun intendedCall :: "call \<Rightarrow> string" where
  "intendedCall (CreateComment issue_number body) = showNat issue_number @ '': COMMENT '' @ body"
| "intendedCall (AddLabels issue_number labels) =
     showNat issue_number @ '': ADD LABEL '' @ joinComma labels"
| "intendedCall (UpdateClosed issue_number) = showNat issue_number @ '': CLOSE''"

text \<open>A state \<open>d\<close> of a dry run mirrors a state \<open>s\<close> of the real run: the same counters, no
  call sent, and the log holding the calls of the real run.\<close>

definition mirrors :: "run_state \<Rightarrow> run_state \<Rightarrow> bool" where
  "mirrors d s \<longleftrightarrow>
     metrics d = metrics s \<and> calls d = [] \<and> dry_log d = map intendedCall (calls s)
     \<and> dry_log s = []"

subsection \<open>Most recent results\<close>

text \<open>The most recent result of a name in one list of results: the first entry of that name
  which no entry of that name is more recent than.\<close>

definition latest ::
  "'a list \<Rightarrow> ('a \<Rightarrow> string) \<Rightarrow> ('a \<Rightarrow> time option) \<Rightarrow> string \<Rightarrow> 'a option"
where
  "latest xs idKey timeKey name =
     (let named = filter (\<lambda>x. idKey x = name) xs
      in find (\<lambda>x. list_all (\<lambda>y. \<not> js_gt (timeKey y) (timeKey x)) named) named)"

text \<open>The failure that the most recent result of a name in one source stands for, if it is
  one.\<close>

definition latestRunFailure :: "check_run list \<Rightarrow> string \<Rightarrow> FailedCheck option" where
  "latestRunFailure runs name =
     (case latest runs run_name run_completed_at name of
        None \<Rightarrow> None
      | Some c \<Rightarrow>
          if run_conclusion c = Some ''failure'' \<and> run_completed_at c \<noteq> None
          then Some \<lparr>fc_when = the (run_completed_at c)\<rparr> else None)"

definition latestStatusFailure :: "commit_status list \<Rightarrow> string \<Rightarrow> FailedCheck option" where
  "latestStatusFailure statuses name =
     (case latest statuses status_context status_updated_at name of
        None \<Rightarrow> None
      | Some c \<Rightarrow>
          if status_state c = ''failure'' \<and> status_updated_at c \<noteq> None
          then Some \<lparr>fc_when = the (status_updated_at c)\<rparr> else None)"

subsection \<open>The wording of the specification\<close>

text \<open>The resolver's third disjunct as the specification words it: a member has commented or
  reviewed after the warning of time \<open>w\<close>.\<close>

definition spec_memberEngagedSince ::
  "review list \<Rightarrow> issue_comment list \<Rightarrow> time \<Rightarrow> bool"
where
  "spec_memberEngagedSince reviews comments w =
     (list_ex (\<lambda>r. review_author_association r = ''MEMBER'' \<and> js_gt (review_submitted_at r) (Some w))
        reviews
      \<or> list_ex (\<lambda>c. comment_author_association c = ''MEMBER'' \<and> w < comment_created_at c)
           comments)"

definition spec_warns ::
  "Stale \<Rightarrow> time option \<Rightarrow> review list \<Rightarrow> issue_comment list \<Rightarrow> bool"
where
  "spec_warns st warning reviews comments =
     (case warning of
        None \<Rightarrow> True
      | Some w \<Rightarrow> w < since st \<or> spec_memberEngagedSince reviews comments w)"

text \<open>The aggregation as the specification words it: the results of both sources in one list
  (name, time, whether it is a failure), and per name the most recent of them all, kept if it
  is a failure.\<close>

definition spec_results ::
  "check_run list \<Rightarrow> commit_status list \<Rightarrow> (string \<times> time option \<times> bool) list"
where
  "spec_results runs statuses =
     map (\<lambda>c. (run_name c, run_completed_at c, run_conclusion c = Some ''failure'')) runs
     @ map (\<lambda>c. (status_context c, status_updated_at c, status_state c = ''failure'')) statuses"

definition spec_failingCheck ::
  "check_run list \<Rightarrow> commit_status list \<Rightarrow> string \<Rightarrow> FailedCheck option"
where
  "spec_failingCheck runs statuses name =
     (case latest (spec_results runs statuses) fst (\<lambda>r. fst (snd r)) name of
        None \<Rightarrow> None
      | Some (n, t, failed) \<Rightarrow> if failed \<and> t \<noteq> None then Some \<lparr>fc_when = the t\<rparr> else None)"

section \<open>Example inputs\<close>

text \<open>Times are in milliseconds, \<open>days n\<close> being \<open>n\<close> days after the epoch; the runs below
  happen at \<open>days 100\<close> with \<open>staleDays = 21\<close> and \<open>responseDays = 10\<close>.\<close>

definition days :: "int \<Rightarrow> time" where
  "days n = n * 24 * 3600 * 1000"

definition example_props :: StalePrFinderProps where
  "example_props =
     \<lparr>staleDays = 21, responseDays = 10, mergeConflictWarningDays = None,
      mergeConflictWarning = None, importantChecksRegex = None, skipLabels = None,
      warnMessage = None, closeMessage = None, closeLabel = None, dryRun = False\<rparr>"

definition member_review :: "string \<Rightarrow> time \<Rightarrow> review" where
  "member_review st t =
     \<lparr>review_author_association = ''MEMBER'', review_submitted_at = Some t, review_state = st\<rparr>"

text \<open>A completed check run and a commit status.\<close>

definition check :: "string \<Rightarrow> time \<Rightarrow> string \<Rightarrow> check_run" where
  "check name t conclusion =
     \<lparr>run_name = name, run_completed_at = Some t, run_conclusion = Some conclusion\<rparr>"

definition status :: "string \<Rightarrow> time \<Rightarrow> string \<Rightarrow> commit_status" where
  "status name t st = \<lparr>status_context = name, status_updated_at = Some t, status_state = st\<rparr>"

text \<open>A stale-warning comment of the action itself.\<close>

definition stale_warning_comment :: "time \<Rightarrow> issue_comment" where
  "stale_warning_comment t =
     \<lparr>comment_body = Some (marker STALE_PR @ [CHR 10] @ ''This PR looks abandoned.''),
      comment_created_at = t, comment_author_association = ''NONE'',
      comment_submitted_at = None\<rparr>"

definition changes_requested_verdict :: Stale where
  "changes_requested_verdict = \<lparr>reason = ''CHANGES REQUESTED'', since = days 70\<rparr>"

definition build_failing_verdict :: Stale where
  "build_failing_verdict = \<lparr>reason = ''BUILD FAILING'', since = days 70\<rparr>"

text \<open>A pull request whose only review is a member's approval, thirty days old.\<close>

definition approved_pull :: pull where
  "approved_pull =
     \<lparr>pr_number = 7, pr_labels = [], pr_check_runs = [], pr_statuses = [],
      pr_reviews = [member_review ''APPROVED'' (days 70)],
      pr_commits = [\<lparr>commit_committer_date = Some (days 60)\<rparr>],
      pr_mergeable_state = ''clean'', pr_comments = []\<rparr>"

text \<open>A pull request with a member's change request of day 70, warned at day 95, on which a
  member left a further review at day 98.\<close>

definition reengaged_pull :: pull where
  "reengaged_pull =
     \<lparr>pr_number = 8, pr_labels = [], pr_check_runs = [], pr_statuses = [],
      pr_reviews = [member_review ''CHANGES_REQUESTED'' (days 70),
                    member_review ''COMMENTED'' (days 98)],
      pr_commits = [\<lparr>commit_committer_date = Some (days 60)\<rparr>],
      pr_mergeable_state = ''clean'',
      pr_comments = [stale_warning_comment (days 95)]\<rparr>"

text \<open>A pull request whose build fails since day 70, warned at day 95, that no member has
  reviewed or commented on.\<close>

definition unreviewed_pull :: pull where
  "unreviewed_pull =
     \<lparr>pr_number = 9, pr_labels = [],
      pr_check_runs = [\<lparr>run_name = ''build'', run_completed_at = Some (days 70),
                        run_conclusion = Some ''failure''\<rparr>],
      pr_statuses = [], pr_reviews = [],
      pr_commits = [\<lparr>commit_committer_date = Some (days 60)\<rparr>],
      pr_mergeable_state = ''clean'',
      pr_comments = [stale_warning_comment (days 95)]\<rparr>"

text \<open>A pull request to close: change request of day 70, warned at day 85, reviewed by a
  member.  And a pull request that carries a label.\<close>

definition overdue_pull :: pull where
  "overdue_pull =
     reengaged_pull\<lparr>pr_number := 11, pr_comments := [stale_warning_comment (days 85)]\<rparr>"

definition skipped_pull :: pull where
  "skipped_pull = approved_pull\<lparr>pr_number := 10, pr_labels := [LabelObject (Some ''blocked'')]\<rparr>"


text \<open>Configurations: with a skip list; with a label and messages of its own.\<close>

definition skip_props :: StalePrFinderProps where
  "skip_props = example_props\<lparr>skipLabels := Some [''wip'', ''blocked'']\<rparr>"

definition label_props :: StalePrFinderProps where
  "label_props = example_props\<lparr>closeLabel := Some ''stale'', closeMessage := Some ''Closing.'',
     warnMessage := Some ''Stale: STATE.''\<rparr>"

text \<open>Configurations with a pattern for the important checks: \<open>^build$\<close> and \<open>^deploy$\<close>.\<close>

definition build_props :: StalePrFinderProps where
  "build_props = example_props\<lparr>importantChecksRegex := Some (\<lambda>id. id = ''build'')\<rparr>"

definition deploy_props :: StalePrFinderProps where
  "deploy_props = example_props\<lparr>importantChecksRegex := Some (\<lambda>id. id = ''deploy'')\<rparr>"

section \<open>Properties\<close>

subsection \<open>Review state\<close>

lemma memberReviews_members:
  "memberReviews (filter (\<lambda>r. review_author_association r = ''MEMBER'') reviews)
     = memberReviews reviews"
  by (simp add: memberReviews_def)

lemma reviewState_members_only:
  "reviewState (filter (\<lambda>r. review_author_association r = ''MEMBER'') reviews)
     = reviewState reviews"
  by (simp add: reviewState_def memberReviews_members)

lemma last_sorted_Max:
  fixes xs :: "int list"
  shows "sorted xs \<Longrightarrow> xs \<noteq> [] \<Longrightarrow> last xs = Max (set xs)"
proof (induction xs)
  case Nil
  then show ?case by simp
next
  case (Cons x xs)
  show ?case
  proof (cases "xs = []")
    case True
    then show ?thesis by simp
  next
    case False
    with Cons have "last xs = Max (set xs)" and "\<forall>y \<in> set xs. x \<le> y"
      by auto
    moreover from this False have "x \<le> Max (set xs)"
      by (metis last_in_set)
    ultimately show ?thesis
      using False by (simp add: max_def)
  qed
qed

lemma hd_sorted_Min:
  fixes xs :: "int list"
  shows "sorted xs \<Longrightarrow> xs \<noteq> [] \<Longrightarrow> hd xs = Min (set xs)"
  by (cases xs) (auto intro!: Min_eqI [symmetric])

text \<open>What \<open>reviewState\<close> computes: with a change request among the submitted reviews of
  members, the time of the newest of them; with none but an approval, the time of the oldest
  approval.\<close>

lemma reviewState_changes_requested:
  assumes "filter (\<lambda>r. review_state r = ''CHANGES_REQUESTED'') (memberReviews reviews) \<noteq> []"
  shows "reviewState reviews
           = Some \<lparr>rs_state = ''changes_requested'',
                   rs_when = Max ((\<lambda>r. the (review_submitted_at r))
                     ` set (filter (\<lambda>r. review_state r = ''CHANGES_REQUESTED'')
                              (memberReviews reviews)))\<rparr>"
proof -
  let ?f = "\<lambda>r. the (review_submitted_at r)"
  let ?P = "\<lambda>r. review_state r = ''CHANGES_REQUESTED''"
  let ?cr = "filter ?P (sort_key ?f (memberReviews reviews))"
  have s: "set ?cr = set (filter ?P (memberReviews reviews))"
    by simp
  with assms have n: "?cr \<noteq> []"
    by (metis set_empty)
  have "sorted (map ?f ?cr)"
    by (rule sorted_filter) (rule sorted_sort_key)
  with n have "last (map ?f ?cr) = Max (set (map ?f ?cr))"
    by (intro last_sorted_Max) simp_all
  with n have "?f (last ?cr) = Max (?f ` set (filter ?P (memberReviews reviews)))"
    by (simp add: last_map)
  with n show ?thesis
    by (simp add: reviewState_def Let_def)
qed

lemma reviewState_approved:
  assumes "filter (\<lambda>r. review_state r = ''CHANGES_REQUESTED'') (memberReviews reviews) = []"
    and "filter (\<lambda>r. review_state r = ''APPROVED'') (memberReviews reviews) \<noteq> []"
  shows "reviewState reviews
           = Some \<lparr>rs_state = ''approved'',
                   rs_when = Min ((\<lambda>r. the (review_submitted_at r))
                     ` set (filter (\<lambda>r. review_state r = ''APPROVED'')
                              (memberReviews reviews)))\<rparr>"
proof -
  let ?f = "\<lambda>r. the (review_submitted_at r)"
  let ?P = "\<lambda>r. review_state r = ''APPROVED''"
  let ?C = "\<lambda>r. review_state r = ''CHANGES_REQUESTED''"
  let ?ap = "filter ?P (sort_key ?f (memberReviews reviews))"
  have "set (filter ?C (sort_key ?f (memberReviews reviews))) = set (filter ?C (memberReviews reviews))"
    by simp
  with assms(1) have c: "filter ?C (sort_key ?f (memberReviews reviews)) = []"
    by (metis set_empty)
  have s: "set ?ap = set (filter ?P (memberReviews reviews))"
    by simp
  with assms(2) have n: "?ap \<noteq> []"
    by (metis set_empty)
  have "sorted (map ?f ?ap)"
    by (rule sorted_filter) (rule sorted_sort_key)
  with n have "hd (map ?f ?ap) = Min (set (map ?f ?ap))"
    by (intro hd_sorted_Min) simp_all
  with n have "?f (hd ?ap) = Min (?f ` set (filter ?P (memberReviews reviews)))"
    by (simp add: hd_map)
  with n c show ?thesis
    by (simp add: reviewState_def Let_def)
qed

text \<open>
  Claim C3.  The review state is to carry the time of the oldest change request, and, with no
  change request, the time of the newest approval.  On two change requests of members, at
  day 60 and day 70, \<open>reviewState\<close> answers with day 70, the newest; on two approvals it
  answers with day 60, the oldest.  The reviews are sorted ascending, so that \<open>cr.pop()\<close>
  is the newest change request and \<open>approved[0]\<close> the oldest approval, against the comment
  beside them ("sorted descending", "Get the oldest PR with changes requested so that a new
  review with additional changes requested won't reset the clock").
\<close>

theorem C3_reviewState_newest_change_request:
  "reviewState [member_review ''CHANGES_REQUESTED'' (days 60),
                member_review ''CHANGES_REQUESTED'' (days 70)]
     = Some \<lparr>rs_state = ''changes_requested'', rs_when = days 70\<rparr>
   \<and> reviewState [member_review ''APPROVED'' (days 60), member_review ''APPROVED'' (days 70)]
     = Some \<lparr>rs_state = ''approved'', rs_when = days 60\<rparr>"
  by code_simp

subsection \<open>Records as association lists\<close>

lemma update_fresh: "k \<notin> fst ` set al \<Longrightarrow> AList.update k v al = al @ [(k, v)]"
  by (induction al) auto

lemma distinct_assign:
  "distinct (map fst ret) \<Longrightarrow> distinct (map fst (assign ret src))"
  unfolding assign_def
  by (induction src arbitrary: ret) (auto simp: distinct_update)

lemma assign_fresh:
  "distinct (map fst src) \<Longrightarrow> fst ` set src \<inter> fst ` set ret = {} \<Longrightarrow> assign ret src = ret @ src"
  unfolding assign_def
proof (induction src arbitrary: ret)
  case Nil
  then show ?case by simp
next
  case (Cons e src)
  obtain k v where e: "e = (k, v)" by (cases e)
  from Cons.prems have k: "k \<notin> fst ` set ret" and d: "distinct (map fst src)"
    and f: "fst ` set src \<inter> fst ` set (ret @ [(k, v)]) = {}"
    by (auto simp: e)
  from Cons.IH [OF d f] k show ?case
    by (simp add: e update_fresh)
qed

lemma fromEntries_distinct: "distinct (map fst es) \<Longrightarrow> fromEntries es = es"
  by (simp add: fromEntries_def assign_fresh)

lemma map_of_assign_distinct:
  "distinct (map fst src) \<Longrightarrow>
     map_of (assign ret src) name
       = (case map_of src name of Some v \<Rightarrow> Some v | None \<Rightarrow> map_of ret name)"
  unfolding assign_def
proof (induction src arbitrary: ret)
  case Nil
  then show ?case by simp
next
  case (Cons e src)
  obtain k v where e: "e = (k, v)" by (cases e)
  from Cons.prems have d: "distinct (map fst src)" and k: "k \<notin> fst ` set src"
    by (auto simp: e)
  from k have n: "map_of src k = None"
    by (simp add: map_of_eq_None_iff)
  from Cons.IH [OF d, of "AList.update k v ret"] n show ?case
    by (auto simp: e update_conv' split: option.splits)
qed

text \<open>The entries that \<open>failingChecks\<close> builds from the latest result of each name.\<close>

lemma map_of_failed_entries:
  assumes "distinct (map fst U)" and "\<forall>(k, x) \<in> set U. idKey x = k"
  shows "map_of (map (\<lambda>c. (idKey c, g c)) (filter P (map snd U))) name
           = (case map_of U name of
                None \<Rightarrow> None
              | Some c \<Rightarrow> if P c then Some (g c) else None)"
  using assms
proof (induction U)
  case Nil
  then show ?case by simp
next
  case (Cons e U)
  obtain k x where e: "e = (k, x)" by (cases e)
  from Cons.prems have kx: "idKey x = k" and k: "k \<notin> fst ` set U"
    and d: "distinct (map fst U)" and a: "\<forall>(k, x) \<in> set U. idKey x = k"
    by (auto simp: e)
  note IH = Cons.IH [OF d a]
  show ?case
  proof (cases "name = k")
    case True
    with k have "map_of U name = None"
      by (simp add: map_of_eq_None_iff)
    with IH True kx show ?thesis
      by (simp add: e)
  next
    case False
    with IH kx show ?thesis
      by (simp add: e)
  qed
qed

lemma distinct_failed_entries:
  assumes "distinct (map fst U)" and "\<forall>(k, x) \<in> set U. idKey x = k"
  shows "distinct (map fst (map (\<lambda>c. (idKey c, g c)) (filter P (map snd U))))"
proof -
  have "map fst (map (\<lambda>c. (idKey c, g c)) (filter P (map snd U)))
          = map fst (filter (\<lambda>(k, x). P x) U)"
    using assms(2) by (induction U) auto
  with assms(1) show ?thesis
    by (simp add: distinct_map_filter)
qed

subsection \<open>The most recent result of a name\<close>

lemma mostRecent_loop_keys:
  assumes "distinct (map fst ret)" and "\<forall>(k, x) \<in> set ret. idKey x = k"
  shows "distinct (map fst (mostRecent_loop idKey timeKey ret xs))
         \<and> (\<forall>(k, x) \<in> set (mostRecent_loop idKey timeKey ret xs). idKey x = k)"
  using assms
proof (induction xs arbitrary: ret)
  case Nil
  then show ?case by simp
next
  case (Cons x xs)
  have u: "distinct (map fst (AList.update (idKey x) x ret))"
    using Cons.prems(1) by (rule distinct_update)
  have "set (AList.update (idKey x) x ret) \<subseteq> insert (idKey x, x) (set ret)"
    by (induction ret) auto
  with Cons.prems(2) have v: "\<forall>(k, y) \<in> set (AList.update (idKey x) x ret). idKey y = k"
    by auto
  show ?case
    using Cons.IH [OF u v] Cons.IH [OF Cons.prems]
    by (simp add: Let_def)
qed

lemma mostRecent_keys:
  "distinct (map fst (mostRecent xs idKey timeKey))"
  "\<forall>(k, x) \<in> set (mostRecent xs idKey timeKey). idKey x = k"
  using mostRecent_loop_keys [of "[]" idKey timeKey xs]
  by (simp_all add: mostRecent_def)

lemma mostRecent_loop_snoc:
  "mostRecent_loop idKey timeKey ret (xs @ [x]) =
     (let r = mostRecent_loop idKey timeKey ret xs; key = idKey x
      in if (case map_of r key of
               None \<Rightarrow> \<not> inheritedKey key
             | Some y \<Rightarrow> js_gt (timeKey x) (timeKey y))
         then AList.update key x r else r)"
  by (induction xs arbitrary: ret) (simp_all add: Let_def)

lemma map_of_mostRecent_snoc:
  "map_of (mostRecent (xs @ [x]) idKey timeKey) name =
     (if idKey x = name then
        (case map_of (mostRecent xs idKey timeKey) name of
           None \<Rightarrow> if inheritedKey name then None else Some x
         | Some y \<Rightarrow> if js_gt (timeKey x) (timeKey y) then Some x else Some y)
      else map_of (mostRecent xs idKey timeKey) name)"
  by (auto simp: mostRecent_def mostRecent_loop_snoc Let_def update_conv' split: option.splits)

lemma map_of_mostRecent_inherited:
  "inheritedKey name \<Longrightarrow> map_of (mostRecent xs idKey timeKey) name = None"
proof (induction xs rule: rev_induct)
  case Nil
  then show ?case by (simp add: mostRecent_def)
next
  case (snoc x xs)
  then show ?case by (simp add: map_of_mostRecent_snoc)
qed

lemma find_append_list:
  "find P (xs @ ys) = (case find P xs of None \<Rightarrow> find P ys | Some a \<Rightarrow> Some a)"
  by (induction xs) simp_all

lemma find_conj_None: "find P ys = None \<Longrightarrow> find (\<lambda>z. P z \<and> Q z) ys = None"
  by (auto simp: find_None_iff)

lemma find_Some_holds: "find P ys = Some y \<Longrightarrow> y \<in> set ys \<and> P y"
  by (induction ys) (auto split: if_splits)

lemma find_conj_Some:
  "find P ys = Some y \<Longrightarrow> \<forall>z \<in> set ys. P z \<longrightarrow> (Q z \<longleftrightarrow> Q y) \<Longrightarrow>
     find (\<lambda>z. P z \<and> Q z) ys = (if Q y then Some y else None)"
proof (induction ys)
  case Nil
  then show ?case by simp
next
  case (Cons a ys)
  show ?case
  proof (cases "P a")
    case True
    with Cons.prems(1) have ay: "a = y" by simp
    show ?thesis
    proof (cases "Q y")
      case True
      with \<open>P a\<close> ay show ?thesis by simp
    next
      case False
      from Cons.prems(2) False have "\<forall>z \<in> set ys. \<not> (P z \<and> Q z)"
        by auto
      then have "find (\<lambda>z. P z \<and> Q z) ys = None"
        by (simp add: find_None_iff)
      with False ay show ?thesis by simp
    qed
  next
    case False
    with Cons show ?thesis by simp
  qed
qed

lemma greatest_exists:
  fixes f :: "'a \<Rightarrow> int"
  shows "ys \<noteq> [] \<Longrightarrow> \<exists>z \<in> set ys. \<forall>y \<in> set ys. f y \<le> f z"
proof (induction ys)
  case Nil
  then show ?case by simp
next
  case (Cons a ys)
  show ?case
  proof (cases "ys = []")
    case True
    then show ?thesis by simp
  next
    case False
    with Cons.IH obtain z where z: "z \<in> set ys" "\<forall>y \<in> set ys. f y \<le> f z"
      by blast
    show ?thesis
    proof (cases "f z \<le> f a")
      case True
      with z have "\<forall>y \<in> set (a # ys). f y \<le> f a" by auto
      then show ?thesis by auto
    next
      case False
      with z have "\<forall>y \<in> set (a # ys). f y \<le> f z" by auto
      with z(1) show ?thesis by auto
    qed
  qed
qed

lemma latest_snoc:
  assumes "\<forall>y \<in> set (xs @ [x]). timeKey y \<noteq> None"
  shows "latest (xs @ [x]) idKey timeKey name =
     (if idKey x = name then
        (case latest xs idKey timeKey name of
           None \<Rightarrow> Some x
         | Some y \<Rightarrow> if js_gt (timeKey x) (timeKey y) then Some x else Some y)
      else latest xs idKey timeKey name)"
proof (cases "idKey x = name")
  case False
  then show ?thesis by (simp add: latest_def Let_def)
next
  case True
  define named where "named = filter (\<lambda>x. idKey x = name) xs"
  define t where "t = (\<lambda>y. the (timeKey y))"
  define P where "P = (\<lambda>z. list_all (\<lambda>y. \<not> js_gt (timeKey y) (timeKey z)) named)"
  define Q where "Q = (\<lambda>z. \<not> js_gt (timeKey x) (timeKey z))"
  have tm: "js_gt (timeKey a) (timeKey b) \<longleftrightarrow> t b < t a"
    if "a \<in> set (xs @ [x])" "b \<in> set (xs @ [x])" for a b
  proof -
    from assms that have "timeKey a \<noteq> None" "timeKey b \<noteq> None"
      by blast+
    then show ?thesis
      by (auto simp: t_def)
  qed
  have sub: "set named \<subseteq> set xs"
    by (auto simp: named_def)
  have Pt: "P z \<longleftrightarrow> (\<forall>y \<in> set named. t y \<le> t z)" if z: "z \<in> set (xs @ [x])" for z
  proof -
    have "\<not> js_gt (timeKey y) (timeKey z) \<longleftrightarrow> t y \<le> t z" if y: "y \<in> set named" for y
    proof -
      from y sub have "y \<in> set (xs @ [x])" by auto
      from tm [OF this z] show ?thesis by auto
    qed
    then show ?thesis
      by (simp add: P_def list_all_iff)
  qed
  have Qt: "Q z \<longleftrightarrow> t x \<le> t z" if z: "z \<in> set (xs @ [x])" for z
  proof -
    have "x \<in> set (xs @ [x])" by simp
    from tm [OF this z] show ?thesis by (auto simp: Q_def)
  qed
  have l: "latest xs idKey timeKey name = find P named"
    by (simp add: latest_def Let_def named_def P_def)
  have l': "latest (xs @ [x]) idKey timeKey name
              = (case find (\<lambda>z. P z \<and> Q z) named of
                   None \<Rightarrow> if P x \<and> Q x then Some x else None
                 | Some a \<Rightarrow> Some a)"
  proof -
    have "latest (xs @ [x]) idKey timeKey name = find (\<lambda>z. P z \<and> Q z) (named @ [x])"
      using True by (simp add: latest_def Let_def named_def P_def Q_def)
    also have "\<dots> = (case find (\<lambda>z. P z \<and> Q z) named of
                        None \<Rightarrow> find (\<lambda>z. P z \<and> Q z) [x]
                      | Some a \<Rightarrow> Some a)"
      by (rule find_append_list)
    also have "find (\<lambda>z. P z \<and> Q z) [x] = (if P x \<and> Q x then Some x else None)"
      by simp
    finally show ?thesis .
  qed
  have Qx: "Q x"
    by (simp add: Qt)
  show ?thesis
  proof (cases "find P named")
    case None
    have "named = []"
    proof (rule ccontr)
      assume "named \<noteq> []"
      from greatest_exists [OF this, of t] obtain z
        where "z \<in> set named" "\<forall>y \<in> set named. t y \<le> t z"
        by blast
      with sub have "z \<in> set named \<and> P z"
        by (auto simp: Pt)
      with None show False
        by (auto simp: find_None_iff)
    qed
    then have "P x" by (simp add: P_def)
    with None Qx True l l' show ?thesis
      by (simp add: find_conj_None)
  next
    case (Some y)
    then have y: "y \<in> set named" "P y"
      by (auto dest: find_Some_holds)
    with sub have yx: "y \<in> set (xs @ [x])" by auto
    have same: "\<forall>z \<in> set named. P z \<longrightarrow> (Q z \<longleftrightarrow> Q y)"
    proof (intro ballI impI)
      fix z assume z: "z \<in> set named" "P z"
      with sub have zx: "z \<in> set (xs @ [x])" by auto
      from z y have "t z = t y"
        using Pt [OF zx] Pt [OF yx] by (auto intro: antisym)
      then show "Q z \<longleftrightarrow> Q y"
        by (simp add: Qt [OF zx] Qt [OF yx])
    qed
    have f: "find (\<lambda>z. P z \<and> Q z) named = (if Q y then Some y else None)"
      using Some same by (rule find_conj_Some)
    show ?thesis
    proof (cases "Q y")
      case True
      with f l l' Some \<open>idKey x = name\<close> show ?thesis
        by (simp add: Q_def)
    next
      case False
      then have "t y < t x"
        by (simp add: Qt [OF yx])
      with y(2) have "P x"
        using Pt [OF yx] by (force simp: Pt)
      with False f l l' Some Qx \<open>idKey x = name\<close> show ?thesis
        by (simp add: Q_def)
    qed
  qed
qed

lemma map_of_mostRecent_latest:
  assumes "\<forall>y \<in> set xs. timeKey y \<noteq> None" and "\<not> inheritedKey name"
  shows "map_of (mostRecent xs idKey timeKey) name = latest xs idKey timeKey name"
  using assms(1)
proof (induction xs rule: rev_induct)
  case Nil
  then show ?case by (simp add: mostRecent_def latest_def)
next
  case (snoc x xs)
  from snoc.prems have "\<forall>y \<in> set xs. timeKey y \<noteq> None" by simp
  with snoc.IH have "map_of (mostRecent xs idKey timeKey) name = latest xs idKey timeKey name"
    by simp
  with assms(2) show ?case
    by (simp add: map_of_mostRecent_snoc latest_snoc [OF snoc.prems])
qed

lemma latest_most_recent:
  assumes "latest xs idKey timeKey name = Some x"
  shows "x \<in> set xs \<and> idKey x = name
         \<and> (\<forall>y \<in> set xs. idKey y = name \<longrightarrow> \<not> js_gt (timeKey y) (timeKey x))"
proof -
  let ?named = "filter (\<lambda>x. idKey x = name) xs"
  from assms have "x \<in> set ?named"
    and "list_all (\<lambda>y. \<not> js_gt (timeKey y) (timeKey x)) ?named"
    by (auto simp: latest_def Let_def dest: find_Some_holds)
  then show ?thesis
    by (auto simp: list_all_iff)
qed

subsection \<open>Failing checks\<close>

lemma distinct_failingChecks: "distinct (map fst (failingChecks runs statuses))"
  by (simp add: failingChecks_def Let_def distinct_assign)

lemma map_of_failingChecks:
  assumes "list_all (\<lambda>c. run_completed_at c \<noteq> None) runs"
    and "list_all (\<lambda>c. status_updated_at c \<noteq> None) statuses"
    and "\<not> inheritedKey name"
  shows "map_of (failingChecks runs statuses) name
           = (case latestStatusFailure statuses name of
                Some f \<Rightarrow> Some f
              | None \<Rightarrow> latestRunFailure runs name)"
proof -
  define U1 where "U1 = mostRecent runs run_name run_completed_at"
  define U2 where "U2 = mostRecent statuses status_context status_updated_at"
  define E1 where "E1 = map (\<lambda>c. (run_name c, \<lparr>fc_when = the (run_completed_at c)\<rparr>))
      (filter (\<lambda>c. run_conclusion c = Some ''failure'' \<and> run_completed_at c \<noteq> None) (map snd U1))"
  define E2 where "E2 = map (\<lambda>c. (status_context c, \<lparr>fc_when = the (status_updated_at c)\<rparr>))
      (filter (\<lambda>c. status_state c = ''failure'' \<and> status_updated_at c \<noteq> None) (map snd U2))"
  have d1: "distinct (map fst E1)"
    unfolding E1_def U1_def by (rule distinct_failed_entries [OF mostRecent_keys])
  have d2: "distinct (map fst E2)"
    unfolding E2_def U2_def by (rule distinct_failed_entries [OF mostRecent_keys])
  have f: "failingChecks runs statuses = assign E1 E2"
    using d1 d2
    by (simp add: failingChecks_def Let_def E1_def E2_def U1_def U2_def fromEntries_distinct
        assign_fresh)
  have k1: "distinct (map fst U1)" "\<forall>(k, x) \<in> set U1. run_name x = k"
    unfolding U1_def by (rule mostRecent_keys)+
  have k2: "distinct (map fst U2)" "\<forall>(k, x) \<in> set U2. status_context x = k"
    unfolding U2_def by (rule mostRecent_keys)+
  have l1: "map_of U1 name = latest runs run_name run_completed_at name"
    using assms(1,3) by (simp add: U1_def map_of_mostRecent_latest list_all_iff)
  have l2: "map_of U2 name = latest statuses status_context status_updated_at name"
    using assms(2,3) by (simp add: U2_def map_of_mostRecent_latest list_all_iff)
  have m1: "map_of E1 name = latestRunFailure runs name"
    by (simp only: E1_def map_of_failed_entries [OF k1] l1 latestRunFailure_def)
  have m2: "map_of E2 name = latestStatusFailure statuses name"
    by (simp only: E2_def map_of_failed_entries [OF k2] l2 latestStatusFailure_def)
  show ?thesis
    by (simp add: f map_of_assign_distinct [OF d2] m1 m2 cong: option.case_cong)
qed

text \<open>
  Claim C6, as the code has it.  The aggregation has at most one entry per name.  Each source
  is reduced on its own to the most recent result per name (timestamps present, and names
  other than those every object inherits): the first entry of that name that none is more
  recent than.  A name is kept with the time of its most recent status when that status is a
  failure, and otherwise with the time of its most recent check run when that run is a
  failure.  The results of the two sources are not compared with each other.
\<close>

theorem C6_failingChecks_per_source:
  assumes "list_all (\<lambda>c. run_completed_at c \<noteq> None) runs"
    and "list_all (\<lambda>c. status_updated_at c \<noteq> None) statuses"
    and "\<not> inheritedKey name"
  shows "distinct (map fst (failingChecks runs statuses))
         \<and> map_of (failingChecks runs statuses) name
             = (case latestStatusFailure statuses name of
                  Some f \<Rightarrow> Some f
                | None \<Rightarrow> latestRunFailure runs name)"
  using map_of_failingChecks [OF assms] distinct_failingChecks [of runs statuses]
  by simp

theorem C6_failingChecks_per_source_witness:
  "list_all (\<lambda>c. run_completed_at c \<noteq> None)
     [check ''build'' (days 70) ''failure'', check ''build'' (days 90) ''success'',
      check ''lint'' (days 80) ''failure'']
   \<and> list_all (\<lambda>c. status_updated_at c \<noteq> None) [status ''build'' (days 75) ''failure'']
   \<and> \<not> inheritedKey ''build''
   \<and> latestRunFailure
        [check ''build'' (days 70) ''failure'', check ''build'' (days 90) ''success'',
         check ''lint'' (days 80) ''failure''] ''build'' = None
   \<and> latestStatusFailure [status ''build'' (days 75) ''failure''] ''build''
        = Some \<lparr>fc_when = days 75\<rparr>
   \<and> map_of (failingChecks
        [check ''build'' (days 70) ''failure'', check ''build'' (days 90) ''success'',
         check ''lint'' (days 80) ''failure'']
        [status ''build'' (days 75) ''failure'']) ''build'' = Some \<lparr>fc_when = days 75\<rparr>"
proof -
  have a: "list_all (\<lambda>c. run_completed_at c \<noteq> None)
     [check ''build'' (days 70) ''failure'', check ''build'' (days 90) ''success'',
      check ''lint'' (days 80) ''failure'']"
    by code_simp
  have b: "list_all (\<lambda>c. status_updated_at c \<noteq> None) [status ''build'' (days 75) ''failure'']"
    by code_simp
  have c: "\<not> inheritedKey ''build''"
    by code_simp
  have r: "latestRunFailure
        [check ''build'' (days 70) ''failure'', check ''build'' (days 90) ''success'',
         check ''lint'' (days 80) ''failure''] ''build'' = None"
    by code_simp
  have s: "latestStatusFailure [status ''build'' (days 75) ''failure''] ''build''
        = Some \<lparr>fc_when = days 75\<rparr>"
    by code_simp
  from C6_failingChecks_per_source [OF a b c] a b c r s show ?thesis
    by simp
qed

text \<open>
  The claim as it is worded compares the results of one name across both sources.  A check
  run \<open>build\<close> that failed at day 70 and a status \<open>build\<close> that succeeded at day 80: the
  most recent result is a success, and the code keeps \<open>build\<close> as failing since day 70.  A
  check run \<open>build\<close> that failed at day 80 and a status \<open>build\<close> that failed at day 70:
  the most recent failure is of day 80, and the code keeps day 70, the status's.
\<close>

theorem C6_counterexample:
  "spec_failingCheck [check ''build'' (days 70) ''failure''] [status ''build'' (days 80) ''success'']
     ''build'' = None
   \<and> failingChecks [check ''build'' (days 70) ''failure''] [status ''build'' (days 80) ''success'']
       = [(''build'', \<lparr>fc_when = days 70\<rparr>)]
   \<and> spec_failingCheck [check ''build'' (days 80) ''failure''] [status ''build'' (days 70) ''failure'']
       ''build'' = Some \<lparr>fc_when = days 80\<rparr>
   \<and> failingChecks [check ''build'' (days 80) ''failure''] [status ''build'' (days 70) ''failure'']
       = [(''build'', \<lparr>fc_when = days 70\<rparr>)]"
  by code_simp

subsection \<open>The verdict\<close>

lemma fst_classify:
  "fst (classify props now n rs lc bt mc s) =
     (if rs \<noteq> None \<and> lc \<noteq> None \<and> stale props now (rs_when (the rs))
      then Some \<lparr>reason = ''CHANGES REQUESTED'', since = rs_when (the rs)\<rparr>
      else if bt \<noteq> None \<and> stale props now (the bt)
      then Some \<lparr>reason = ''BUILD FAILING'', since = the bt\<rparr>
      else if mc \<and> lc \<noteq> None \<and> stale props now (the lc)
      then Some \<lparr>reason = ''MERGE CONFLICTS'', since = the lc\<rparr>
      else None)"
  by (simp add: classify_def)

text \<open>The first test of the verdict block asks for a review state, of either kind.\<close>

lemma classify_any_review_state:
  "rs = Some r \<Longrightarrow> lc \<noteq> None \<Longrightarrow> stale props now (rs_when r) \<Longrightarrow>
     fst (classify props now n rs lc bt mc s)
       = Some \<lparr>reason = ''CHANGES REQUESTED'', since = rs_when r\<rparr>"
  by (simp add: fst_classify)

text \<open>
  Claim C2.  A verdict with reason changes-requested is to need a change request.  The pull
  request \<open>approved_pull\<close> has one review, a member's approval of day 70, and a commit; at
  day 100 its review state is \<open>approved\<close>, and yet the verdict is \<open>CHANGES REQUESTED\<close>
  since day 70, counted under \<open>staleDueToChangesRequested\<close>, and the warning is posted.  The
  test at line 121 reads \<open>reviewState\<close> where the \<open>changesRequested\<close> of line 99 is meant
  (the comment above it: "It has been in CHANGES REQUESTED for a given period").
\<close>

theorem C2_approval_yields_changes_requested_verdict:
  "reviewState (pr_reviews approved_pull) = Some \<lparr>rs_state = ''approved'', rs_when = days 70\<rparr>
   \<and> fst (classifyPull example_props (days 100) approved_pull initial_state)
     = Some \<lparr>reason = ''CHANGES REQUESTED'', since = days 70\<rparr>
   \<and> metrics (findAll example_props (\<lambda>n. days 100) [approved_pull])
     = \<lparr>prsProcessed = 1, skipped = 0, stalePrs = 1, staleDueToChangesRequested = 1,
        staleDueToBuildFailing = 0, staleDueToMergeConflicts = 0, warned = 1, closed = 0\<rparr>"
  by code_simp

subsection \<open>Important checks\<close>

lemma maxTime_Max:
  "maxTime xs = (if xs = [] then None else Some (Max ((\<lambda>(k, c). fc_when c) ` set xs)))"
proof (cases xs)
  case Nil
  then show ?thesis by (simp add: maxTime_def)
next
  case (Cons e es)
  have "fold max (map (\<lambda>(k, c). fc_when c) es) ((\<lambda>(k, c). fc_when c) e)
          = Max (set (((\<lambda>(k, c). fc_when c) e) # map (\<lambda>(k, c). fc_when c) es))"
    by (rule Max.set_eq_fold [symmetric])
  with Cons show ?thesis
    by (simp add: maxTime_def)
qed

lemma buildFailTime_regex:
  assumes "importantChecksRegex props = Some regex" and "distinct (map fst failing)"
  shows "buildFailTime props failing = maxTime (filter (\<lambda>(id, c). regex id) failing)"
proof -
  have "distinct (map fst (filter (\<lambda>(id, c). regex id) failing))"
    using assms(2) by (rule distinct_map_filter)
  then show ?thesis
    using assms(1) by (simp add: buildFailTime_def Let_def fromEntries_distinct)
qed

text \<open>
  Claim C7.  With a pattern configured, the time of the build failure is the greatest failure
  time among the failing checks whose name matches the pattern, and there is none when no
  failing check matches; it is the time that the matching checks alone would give, so a
  failing check outside the pattern has no part in it, however recent.  When no failing check
  matches, the verdict is not \<open>BUILD FAILING\<close>.
\<close>

theorem C7_important_checks:
  assumes "importantChecksRegex props = Some regex"
  shows "buildFailTime props (failingChecks runs statuses)
           = (if filter (\<lambda>(id, c). regex id) (failingChecks runs statuses) = [] then None
              else Some (Max ((\<lambda>(id, c). fc_when c)
                     ` set (filter (\<lambda>(id, c). regex id) (failingChecks runs statuses)))))
         \<and> buildFailTime props (failingChecks runs statuses)
           = buildFailTime props (filter (\<lambda>(id, c). regex id) (failingChecks runs statuses))
         \<and> (filter (\<lambda>(id, c). regex id) (failingChecks runs statuses) = []
            \<longrightarrow> (\<forall>v. fst (classify props now n rs lc
                           (buildFailTime props (failingChecks runs statuses)) mc s) = Some v
                     \<longrightarrow> reason v \<noteq> ''BUILD FAILING''))"
proof -
  let ?failing = "failingChecks runs statuses"
  let ?important = "filter (\<lambda>(id, c). regex id) ?failing"
  have d: "distinct (map fst ?failing)"
    by (rule distinct_failingChecks)
  then have d': "distinct (map fst ?important)"
    by (rule distinct_map_filter)
  have b: "buildFailTime props ?failing = maxTime ?important"
    using assms d by (rule buildFailTime_regex)
  have b': "buildFailTime props ?important = maxTime ?important"
    using buildFailTime_regex [OF assms d'] by simp
  have n: "\<forall>v. fst (classify props now n rs lc None mc s) = Some v
             \<longrightarrow> reason v \<noteq> ''BUILD FAILING''"
    by (auto simp: fst_classify split: if_splits)
  show ?thesis
    using n by (simp add: b b' maxTime_Max)
qed

theorem C7_important_checks_witness:
  "importantChecksRegex build_props = Some (\<lambda>id. id = ''build'')
   \<and> failingChecks [check ''build'' (days 75) ''failure'', check ''lint'' (days 99) ''failure''] []
       = [(''build'', \<lparr>fc_when = days 75\<rparr>), (''lint'', \<lparr>fc_when = days 99\<rparr>)]
   \<and> buildFailTime build_props
        (failingChecks [check ''build'' (days 75) ''failure'', check ''lint'' (days 99) ''failure''] [])
       = Some (days 75)
   \<and> importantChecksRegex deploy_props = Some (\<lambda>id. id = ''deploy'')
   \<and> buildFailTime deploy_props
        (failingChecks [check ''build'' (days 75) ''failure'', check ''lint'' (days 99) ''failure''] [])
       = None
   \<and> fst (classify deploy_props (days 100) 7 None (Some (days 60))
        (buildFailTime deploy_props
           (failingChecks [check ''build'' (days 75) ''failure'', check ''lint'' (days 99) ''failure''] []))
        False initial_state) = None"
proof -
  let ?runs = "[check ''build'' (days 75) ''failure'', check ''lint'' (days 99) ''failure'']"
  have p: "importantChecksRegex build_props = Some (\<lambda>id. id = ''build'')"
    by (simp add: build_props_def)
  have q: "importantChecksRegex deploy_props = Some (\<lambda>id. id = ''deploy'')"
    by (simp add: deploy_props_def)
  have f: "failingChecks ?runs []
       = [(''build'', \<lparr>fc_when = days 75\<rparr>), (''lint'', \<lparr>fc_when = days 99\<rparr>)]"
    by code_simp
  have c: "fst (classify deploy_props (days 100) 7 None (Some (days 60)) None False initial_state)
             = None"
    by (simp add: fst_classify)
  from C7_important_checks [OF p, of ?runs "[]", THEN conjunct1]
  have a: "buildFailTime build_props (failingChecks ?runs []) = Some (days 75)"
    by (simp add: f)
  from C7_important_checks [OF q, of ?runs "[]", THEN conjunct1]
  have b: "buildFailTime deploy_props (failingChecks ?runs []) = None"
    by (simp add: f)
  from p q f a b c show ?thesis
    by (simp only: simp_thms)
qed

subsection \<open>Priority of the reasons\<close>

lemma metrics_addComment [simp]: "metrics (addComment props n body s) = metrics s"
  by (simp add: addComment_def)

lemma metrics_addMergeConflictWarning [simp]:
  "metrics (addMergeConflictWarning props n s) = metrics s"
  by (simp add: addMergeConflictWarning_def Let_def)

lemma classify_counters:
  "staleDueToChangesRequested (metrics (snd (classify props now n rs lc bt mc s)))
       + staleDueToBuildFailing (metrics (snd (classify props now n rs lc bt mc s)))
       + staleDueToMergeConflicts (metrics (snd (classify props now n rs lc bt mc s)))
     = staleDueToChangesRequested (metrics s) + staleDueToBuildFailing (metrics s)
       + staleDueToMergeConflicts (metrics s)
       + (if fst (classify props now n rs lc bt mc s) = None then 0 else 1)"
  by (simp add: classify_def)

lemma classify_changes_requested_first:
  "rs = Some r \<and> rs_state r = ''changes_requested'' \<and> lc \<noteq> None \<and> stale props now (rs_when r)
     \<longrightarrow> fst (classify props now n rs lc bt mc s)
           = Some \<lparr>reason = ''CHANGES REQUESTED'', since = rs_when r\<rparr>"
  by (simp add: fst_classify)

lemma classify_build_failing_only_if:
  "fst (classify props now n rs lc bt mc s) = Some v \<and> reason v = ''BUILD FAILING''
     \<longrightarrow> (\<exists>b. bt = Some b \<and> stale props now b \<and> since v = b)
         \<and> \<not> (\<exists>r. rs = Some r \<and> lc \<noteq> None \<and> stale props now (rs_when r))"
  by (auto simp: fst_classify split: if_splits)

lemma classify_build_failing_if:
  "bt = Some b \<and> stale props now b
       \<and> \<not> (\<exists>r. rs = Some r \<and> lc \<noteq> None \<and> stale props now (rs_when r))
     \<longrightarrow> fst (classify props now n rs lc bt mc s) = Some \<lparr>reason = ''BUILD FAILING'', since = b\<rparr>"
  by (auto simp: fst_classify)

lemma classify_merge_conflicts_only_if:
  "fst (classify props now n rs lc bt mc s) = Some v \<and> reason v = ''MERGE CONFLICTS''
     \<longrightarrow> mc \<and> (\<exists>c. lc = Some c \<and> stale props now c \<and> since v = c)
         \<and> \<not> (\<exists>b. bt = Some b \<and> stale props now b)
         \<and> \<not> (\<exists>r. rs = Some r \<and> lc \<noteq> None \<and> stale props now (rs_when r))"
  by (auto simp: fst_classify split: if_splits)

lemma classify_merge_conflicts_if:
  "mc \<and> lc = Some c \<and> stale props now c
       \<and> \<not> (\<exists>b. bt = Some b \<and> stale props now b)
       \<and> \<not> (\<exists>r. rs = Some r \<and> stale props now (rs_when r))
     \<longrightarrow> fst (classify props now n rs lc bt mc s) = Some \<lparr>reason = ''MERGE CONFLICTS'', since = c\<rparr>"
  by (auto simp: fst_classify)

lemma classify_reasons:
  "fst (classify props now n rs lc bt mc s) = Some v
     \<longrightarrow> reason v = ''CHANGES REQUESTED'' \<or> reason v = ''BUILD FAILING''
         \<or> reason v = ''MERGE CONFLICTS''"
  by (auto simp: fst_classify split: if_splits)

text \<open>
  Claim C5.  The verdict of a pull request is one value or none, and its reason follows the
  order changes requested, build failing, merge conflicts:
  \<^item> when a change request is stale (and a last commit exists) the verdict is
    \<open>CHANGES REQUESTED\<close> since the time of the review state, whatever the build and the
    merge state are, so also when the build failure is stale too;
  \<^item> a \<open>BUILD FAILING\<close> verdict is given only when the build failure is stale and no review
    state is, and it is given whenever the build failure is stale and no review state is;
  \<^item> a \<open>MERGE CONFLICTS\<close> verdict is given only when the conflict is stale and neither of
    the other two is, and it is given whenever that is so;
  \<^item> there is no other reason, and the three counters by reason grow by one in total when
    there is a verdict and not at all when there is none.
\<close>

theorem C5_verdict_priority:
  "(\<forall>r. rs = Some r \<and> rs_state r = ''changes_requested'' \<and> lc \<noteq> None \<and> stale props now (rs_when r)
        \<longrightarrow> fst (classify props now n rs lc bt mc s)
              = Some \<lparr>reason = ''CHANGES REQUESTED'', since = rs_when r\<rparr>)
   \<and> (\<forall>v. fst (classify props now n rs lc bt mc s) = Some v \<and> reason v = ''BUILD FAILING''
        \<longrightarrow> (\<exists>b. bt = Some b \<and> stale props now b \<and> since v = b)
            \<and> \<not> (\<exists>r. rs = Some r \<and> lc \<noteq> None \<and> stale props now (rs_when r)))
   \<and> (\<forall>b. bt = Some b \<and> stale props now b
            \<and> \<not> (\<exists>r. rs = Some r \<and> lc \<noteq> None \<and> stale props now (rs_when r))
        \<longrightarrow> fst (classify props now n rs lc bt mc s) = Some \<lparr>reason = ''BUILD FAILING'', since = b\<rparr>)
   \<and> (\<forall>v. fst (classify props now n rs lc bt mc s) = Some v \<and> reason v = ''MERGE CONFLICTS''
        \<longrightarrow> mc \<and> (\<exists>c. lc = Some c \<and> stale props now c \<and> since v = c)
            \<and> \<not> (\<exists>b. bt = Some b \<and> stale props now b)
            \<and> \<not> (\<exists>r. rs = Some r \<and> lc \<noteq> None \<and> stale props now (rs_when r)))
   \<and> (\<forall>c. mc \<and> lc = Some c \<and> stale props now c
            \<and> \<not> (\<exists>b. bt = Some b \<and> stale props now b)
            \<and> \<not> (\<exists>r. rs = Some r \<and> stale props now (rs_when r))
        \<longrightarrow> fst (classify props now n rs lc bt mc s) = Some \<lparr>reason = ''MERGE CONFLICTS'', since = c\<rparr>)
   \<and> (\<forall>v. fst (classify props now n rs lc bt mc s) = Some v
        \<longrightarrow> reason v = ''CHANGES REQUESTED'' \<or> reason v = ''BUILD FAILING''
            \<or> reason v = ''MERGE CONFLICTS'')
   \<and> staleDueToChangesRequested (metrics (snd (classify props now n rs lc bt mc s)))
       + staleDueToBuildFailing (metrics (snd (classify props now n rs lc bt mc s)))
       + staleDueToMergeConflicts (metrics (snd (classify props now n rs lc bt mc s)))
     = staleDueToChangesRequested (metrics s) + staleDueToBuildFailing (metrics s)
       + staleDueToMergeConflicts (metrics s)
       + (if fst (classify props now n rs lc bt mc s) = None then 0 else 1)"
  by (intro conjI allI classify_changes_requested_first classify_build_failing_only_if
      classify_build_failing_if classify_merge_conflicts_only_if classify_merge_conflicts_if
      classify_reasons classify_counters)

theorem C5_verdict_priority_witness:
  "rs_state \<lparr>rs_state = ''changes_requested'', rs_when = days 70\<rparr> = ''changes_requested''
   \<and> stale example_props (days 100) (rs_when \<lparr>rs_state = ''changes_requested'', rs_when = days 70\<rparr>)
   \<and> stale example_props (days 100) (days 75)
   \<and> fst (classify example_props (days 100) 7
            (Some \<lparr>rs_state = ''changes_requested'', rs_when = days 70\<rparr>) (Some (days 60))
            (Some (days 75)) True initial_state)
       = Some \<lparr>reason = ''CHANGES REQUESTED'', since = days 70\<rparr>"
proof -
  have a: "rs_state \<lparr>rs_state = ''changes_requested'', rs_when = days 70\<rparr> = ''changes_requested''"
    by simp
  have b: "stale example_props (days 100) (rs_when \<lparr>rs_state = ''changes_requested'', rs_when = days 70\<rparr>)"
    and c: "stale example_props (days 100) (days 75)"
    by (simp_all add: stale_def olderThanDays_def days_def example_props_def)
  have t: "fst (classify example_props (days 100) 7
            (Some \<lparr>rs_state = ''changes_requested'', rs_when = days 70\<rparr>) (Some (days 60))
            (Some (days 75)) True initial_state)
       = Some \<lparr>reason = ''CHANGES REQUESTED'', since = rs_when \<lparr>rs_state = ''changes_requested'', rs_when = days 70\<rparr>\<rparr>"
    by (rule C5_verdict_priority [THEN conjunct1, rule_format]) (use a b in simp)
  from a b c t show ?thesis by simp
qed

subsection \<open>The action\<close>

lemma member_review_memberReviewed:
  "list_ex (\<lambda>r. review_author_association r = ''MEMBER'' \<and> review_submitted_at r \<noteq> None) reviews
     \<Longrightarrow> memberReviewed reviews comments"
  by (auto simp: memberReviewed_def memberReviews_def list_ex_iff filter_empty_conv)

text \<open>
  Claim C1, as the code has it.  For a stale verdict the action is \<open>Warn\<close> exactly when there
  is no earlier stale warning, or the warning is strictly older than the verdict's \<open>since\<close>, or
  no member has taken part (\<open>memberReviewed\<close> is false; a submitted review of a member makes
  it true).  The time of the member's review plays no part: a review after the warning does
  not bring the warning back.
\<close>

theorem C1_warn_iff:
  "(resolveAction props now st warnings (memberReviewed reviews comments) = Warn
      \<longleftrightarrow> (warnings STALE_PR = None
           \<or> (\<exists>w. warnings STALE_PR = Some w \<and> w < since st)
           \<or> \<not> memberReviewed reviews comments))
   \<and> (list_ex (\<lambda>r. review_author_association r = ''MEMBER'' \<and> review_submitted_at r \<noteq> None) reviews
        \<longrightarrow> memberReviewed reviews comments)"
  by (auto simp: resolveAction_def Let_def member_review_memberReviewed)

theorem C1_warn_iff_witness:
  "list_ex (\<lambda>r. review_author_association r = ''MEMBER'' \<and> review_submitted_at r \<noteq> None)
     (pr_reviews reengaged_pull)
   \<and> memberReviewed (pr_reviews reengaged_pull) (pr_comments reengaged_pull)
   \<and> mostRecentWarnings (pr_comments reengaged_pull) STALE_PR = Some (days 95)
   \<and> resolveAction example_props (days 100) changes_requested_verdict
        (mostRecentWarnings (pr_comments reengaged_pull))
        (memberReviewed (pr_reviews reengaged_pull) (pr_comments reengaged_pull)) \<noteq> Warn
   \<and> resolveAction example_props (days 100) build_failing_verdict
        (mostRecentWarnings (pr_comments unreviewed_pull))
        (memberReviewed (pr_reviews unreviewed_pull) (pr_comments unreviewed_pull)) = Warn"
proof -
  have r: "list_ex (\<lambda>r. review_author_association r = ''MEMBER'' \<and> review_submitted_at r \<noteq> None)
     (pr_reviews reengaged_pull)"
    by code_simp
  have w: "mostRecentWarnings (pr_comments reengaged_pull) STALE_PR = Some (days 95)"
    by code_simp
  have s: "\<not> days 95 < since changes_requested_verdict"
    by code_simp
  have u: "\<not> memberReviewed (pr_reviews unreviewed_pull) (pr_comments unreviewed_pull)"
    by code_simp
  note a = C1_warn_iff [of example_props "days 100" changes_requested_verdict
      "mostRecentWarnings (pr_comments reengaged_pull)" "pr_reviews reengaged_pull"
      "pr_comments reengaged_pull"]
  note b = C1_warn_iff [of example_props "days 100" build_failing_verdict
      "mostRecentWarnings (pr_comments unreviewed_pull)" "pr_reviews unreviewed_pull"
      "pr_comments unreviewed_pull"]
  from a r w s b u show ?thesis by auto
qed

text \<open>
  The claim as it is worded fails both ways.  On \<open>reengaged_pull\<close> a member reviewed at day 98,
  after the warning of day 95, which the specification answers with \<open>Warn\<close>; the code does
  nothing and sends no call.  On \<open>unreviewed_pull\<close> the warning of day 95 is younger than the
  verdict and no member has engaged since, which the specification answers with no warning;
  the code warns again.
\<close>

theorem C1_counterexample:
  "spec_warns changes_requested_verdict (mostRecentWarnings (pr_comments reengaged_pull) STALE_PR)
     (pr_reviews reengaged_pull) (pr_comments reengaged_pull)
   \<and> resolveAction example_props (days 100) changes_requested_verdict
        (mostRecentWarnings (pr_comments reengaged_pull))
        (memberReviewed (pr_reviews reengaged_pull) (pr_comments reengaged_pull)) = Nothing
   \<and> stalePrs (metrics (findAll example_props (\<lambda>n. days 100) [reengaged_pull])) = 1
   \<and> calls (findAll example_props (\<lambda>n. days 100) [reengaged_pull]) = []
   \<and> \<not> spec_warns build_failing_verdict (mostRecentWarnings (pr_comments unreviewed_pull) STALE_PR)
         (pr_reviews unreviewed_pull) (pr_comments unreviewed_pull)
   \<and> resolveAction example_props (days 100) build_failing_verdict
        (mostRecentWarnings (pr_comments unreviewed_pull))
        (memberReviewed (pr_reviews unreviewed_pull) (pr_comments unreviewed_pull)) = Warn
   \<and> warned (metrics (findAll example_props (\<lambda>n. days 100) [unreviewed_pull])) = 1"
  by code_simp

text \<open>
  Claim C4, as the code has it.  Take a stale verdict, an earlier stale warning of time \<open>w\<close>
  that is not older than the verdict's \<open>since\<close>, and a pull request that a member has reviewed.
  Then the action is \<open>Nothing\<close> as long as \<open>now\<close> is at most \<open>w\<close> plus \<open>responseDays\<close> days,
  and \<open>Close\<close> as soon as \<open>now\<close> is later than that; it is never \<open>Warn\<close>, and once it is
  \<open>Close\<close> it stays \<open>Close\<close> at every later time.
\<close>

theorem C4_grace_period:
  assumes "warnings STALE_PR = Some w" and "\<not> w < since st" and "reviewed"
  shows "resolveAction props now st warnings reviewed
           = (if w + responseDays props * 24 * 3600 * 1000 < now then Close else Nothing)
         \<and> (resolveAction props now st warnings reviewed = Close \<and> now \<le> later
              \<longrightarrow> resolveAction props later st warnings reviewed = Close)"
  using assms
  by (auto simp: resolveAction_def outOfGracePeriod_def olderThanDays_def Let_def)

theorem C4_grace_period_witness:
  "[STALE_PR \<mapsto> days 90] STALE_PR = Some (days 90)
   \<and> \<not> days 90 < since changes_requested_verdict
   \<and> resolveAction example_props (days 100) changes_requested_verdict [STALE_PR \<mapsto> days 90] True
       = Nothing
   \<and> resolveAction example_props (days 100 + 1) changes_requested_verdict [STALE_PR \<mapsto> days 90] True
       = Close
   \<and> resolveAction example_props (days 101) changes_requested_verdict [STALE_PR \<mapsto> days 90] True
       = Close"
proof -
  have w: "[STALE_PR \<mapsto> days 90] STALE_PR = Some (days 90)"
    by simp
  have s: "\<not> days 90 < since changes_requested_verdict"
    by code_simp
  have t: "\<not> days 90 + responseDays example_props * 24 * 3600 * 1000 < days 100"
    "days 90 + responseDays example_props * 24 * 3600 * 1000 < days 100 + 1"
    "days 100 + 1 \<le> days 101"
    by (simp_all add: days_def example_props_def)
  note a = C4_grace_period [where warnings = "[STALE_PR \<mapsto> days 90]" and w = "days 90"
      and st = changes_requested_verdict and reviewed = True and props = example_props
      and now = "days 100" and later = "days 100"]
  note b = C4_grace_period [where warnings = "[STALE_PR \<mapsto> days 90]" and w = "days 90"
      and st = changes_requested_verdict and reviewed = True and props = example_props
      and now = "days 100 + 1" and later = "days 101"]
  from a b t w s show ?thesis by simp
qed

text \<open>
  The claim as it is worded puts the change at \<open>now \<ge> warning + responseDays\<close>.  With the
  warning at day 90 and ten days to respond, at day 100 sharp the code still does nothing
  (\<open>olderThanDays\<close> compares with \<open><\<close>).  And for a pull request that no member has
  reviewed the action within the grace period is \<open>Warn\<close>, which is neither of the two.
\<close>

theorem C4_counterexample:
  "days 90 + responseDays example_props * 24 * 3600 * 1000 \<le> days 100
   \<and> resolveAction example_props (days 100) changes_requested_verdict [STALE_PR \<mapsto> days 90] True
       = Nothing
   \<and> days 95 < days 90 + responseDays example_props * 24 * 3600 * 1000
   \<and> resolveAction example_props (days 95) build_failing_verdict [STALE_PR \<mapsto> days 90] False
       = Warn"
  by (simp add: resolveAction_def outOfGracePeriod_def olderThanDays_def days_def
      example_props_def changes_requested_verdict_def build_failing_verdict_def)

subsection \<open>One pull request\<close>

lemma counted_fields [simp]:
  "prsProcessed (metrics (counted s)) = prsProcessed (metrics s) + 1"
  "skipped (metrics (counted s)) = skipped (metrics s)"
  "stalePrs (metrics (counted s)) = stalePrs (metrics s)"
  "staleDueToChangesRequested (metrics (counted s)) = staleDueToChangesRequested (metrics s)"
  "staleDueToBuildFailing (metrics (counted s)) = staleDueToBuildFailing (metrics s)"
  "staleDueToMergeConflicts (metrics (counted s)) = staleDueToMergeConflicts (metrics s)"
  "warned (metrics (counted s)) = warned (metrics s)"
  "closed (metrics (counted s)) = closed (metrics s)"
  "calls (counted s) = calls s"
  "dry_log (counted s) = dry_log s"
  by (simp_all add: counted_def)

lemma processPull_skipped:
  "hasSkipLabel props (pr_labels p) \<Longrightarrow>
     metrics (processPull props now p s)
       = (metrics s)\<lparr>prsProcessed := prsProcessed (metrics s) + 1, skipped := skipped (metrics s) + 1\<rparr>"
  by (simp add: processPull_def Let_def)

lemma processPull_no_verdict:
  assumes "\<not> hasSkipLabel props (pr_labels p)"
    and "fst (classifyPull props now p s) = None"
  shows "processPull props now p s = snd (classifyPull props now p s)"
  using assms
  by (simp add: processPull_def classifyPull_def counted_def Let_def case_prod_beta
      performAction_def)

lemma processPull_verdict:
  assumes "\<not> hasSkipLabel props (pr_labels p)"
    and "fst (classifyPull props now p s) = Some st"
  shows "processPull props now p s
           = performAction props (pr_number p)
               (resolveAction props now st (mostRecentWarnings (pr_comments p))
                  (memberReviewed (pr_reviews p) (pr_comments p)))
               (Some st) (countedStale (snd (classifyPull props now p s)))"
  using assms
  by (simp add: processPull_def classifyPull_def counted_def countedStale_def Let_def
      case_prod_beta)

subsection \<open>The merge-conflict warning\<close>




subsection \<open>The counters\<close>

lemma performAction_metrics:
  "metrics (performAction props n a v s) =
     (case a of
        Nothing \<Rightarrow> metrics s
      | Warn \<Rightarrow> (metrics s)\<lparr>warned := warned (metrics s) + 1\<rparr>
      | Close \<Rightarrow> (metrics s)\<lparr>closed := closed (metrics s) + 1\<rparr>)"
  by (cases a)
     (simp_all add: performAction_def Let_def addComment_def addLabels_def closeIssue_def
        split: option.splits)

lemma classify_other_counters:
  "prsProcessed (metrics (snd (classify props now n rs lc bt mc s))) = prsProcessed (metrics s)"
  "skipped (metrics (snd (classify props now n rs lc bt mc s))) = skipped (metrics s)"
  "stalePrs (metrics (snd (classify props now n rs lc bt mc s))) = stalePrs (metrics s)"
  "warned (metrics (snd (classify props now n rs lc bt mc s))) = warned (metrics s)"
  "closed (metrics (snd (classify props now n rs lc bt mc s))) = closed (metrics s)"
  by (simp_all add: classify_def)

lemma classifyPull_counters:
  "staleDueToChangesRequested (metrics (snd (classifyPull props now p s)))
       + staleDueToBuildFailing (metrics (snd (classifyPull props now p s)))
       + staleDueToMergeConflicts (metrics (snd (classifyPull props now p s)))
     = staleDueToChangesRequested (metrics s) + staleDueToBuildFailing (metrics s)
       + staleDueToMergeConflicts (metrics s)
       + (if fst (classifyPull props now p s) = None then 0 else 1)"
  unfolding classifyPull_def Let_def
  by (simp only: classify_counters counted_fields)

lemma classifyPull_other_counters:
  "prsProcessed (metrics (snd (classifyPull props now p s))) = prsProcessed (metrics s) + 1"
  "skipped (metrics (snd (classifyPull props now p s))) = skipped (metrics s)"
  "stalePrs (metrics (snd (classifyPull props now p s))) = stalePrs (metrics s)"
  "warned (metrics (snd (classifyPull props now p s))) = warned (metrics s)"
  "closed (metrics (snd (classifyPull props now p s))) = closed (metrics s)"
  by (simp_all add: classifyPull_def Let_def classify_other_counters)

lemma processPull_consistent:
  assumes "metrics_consistent (metrics s)"
  shows "metrics_consistent (metrics (processPull props now p s))"
proof (cases "hasSkipLabel props (pr_labels p)")
  case True
  with assms show ?thesis
    by (simp add: processPull_skipped metrics_consistent_def)
next
  case False
  note sum = classifyPull_counters [of props now p s]
  note oth = classifyPull_other_counters [of props now p s]
  show ?thesis
  proof (cases "fst (classifyPull props now p s)")
    case None
    with assms sum oth show ?thesis
      by (simp add: processPull_no_verdict [OF False None] metrics_consistent_def)
  next
    case (Some st)
    with assms sum oth show ?thesis
      by (simp add: processPull_verdict [OF False Some] performAction_metrics countedStale_def
          metrics_consistent_def split: Action.splits)
  qed
qed

lemma fold_processPull_consistent:
  "metrics_consistent (metrics s) \<Longrightarrow>
     metrics_consistent (metrics (fold (\<lambda>p. processPull props (clock (pr_number p)) p) ps s))"
  by (induction ps arbitrary: s) (simp_all add: processPull_consistent)

lemma initial_consistent: "metrics_consistent (metrics initial_state)"
  by (simp add: metrics_consistent_def initial_state_def initial_metrics_def)

lemma findAll_consistent: "metrics_consistent (metrics (findAll props clock pulls))"
  unfolding findAll_def by (rule fold_processPull_consistent [OF initial_consistent])

lemma processPull_prsProcessed:
  "prsProcessed (metrics (processPull props now p s)) = prsProcessed (metrics s) + 1"
proof (cases "hasSkipLabel props (pr_labels p)")
  case True
  then show ?thesis by (simp add: processPull_skipped)
next
  case False
  show ?thesis
  proof (cases "fst (classifyPull props now p s)")
    case None
    show ?thesis
      by (simp add: processPull_no_verdict [OF False None] classifyPull_other_counters)
  next
    case (Some st)
    show ?thesis
      by (simp add: processPull_verdict [OF False Some] performAction_metrics countedStale_def
          classifyPull_other_counters split: Action.splits)
  qed
qed

lemma fold_processPull_prsProcessed:
  "prsProcessed (metrics (fold (\<lambda>p. processPull props (clock (pr_number p)) p) ps s))
     = prsProcessed (metrics s) + length ps"
  by (induction ps arbitrary: s) (simp_all add: processPull_prsProcessed)

lemma findAll_prsProcessed: "prsProcessed (metrics (findAll props clock pulls)) = length pulls"
  by (simp add: findAll_def fold_processPull_prsProcessed initial_state_def initial_metrics_def)

text \<open>
  Claim C10.  At the end of a run, and so after every pull request of it (the state after
  some of the pull requests is the end of the run over those), the counters satisfy:
  \<open>stalePrs\<close> is the sum of the three counters by reason; \<open>warned\<close> plus \<open>closed\<close> is at most
  \<open>stalePrs\<close>; \<open>skipped\<close> is at most \<open>prsProcessed\<close>, which counts every pull request listed.
  One pull request keeps these relations from any state that has them, and a skipped pull
  request adds one to \<open>prsProcessed\<close> and one to \<open>skipped\<close>.
\<close>

theorem C10_metrics_invariant:
  "stalePrs (metrics (findAll props clock pulls))
     = staleDueToChangesRequested (metrics (findAll props clock pulls))
       + staleDueToBuildFailing (metrics (findAll props clock pulls))
       + staleDueToMergeConflicts (metrics (findAll props clock pulls))
   \<and> warned (metrics (findAll props clock pulls)) + closed (metrics (findAll props clock pulls))
       \<le> stalePrs (metrics (findAll props clock pulls))
   \<and> skipped (metrics (findAll props clock pulls)) \<le> prsProcessed (metrics (findAll props clock pulls))
   \<and> prsProcessed (metrics (findAll props clock pulls)) = length pulls
   \<and> (metrics_consistent (metrics s) \<longrightarrow> metrics_consistent (metrics (processPull props now p s)))
   \<and> (hasSkipLabel props (pr_labels p) \<longrightarrow>
        metrics (processPull props now p s)
          = (metrics s)\<lparr>prsProcessed := prsProcessed (metrics s) + 1,
                         skipped := skipped (metrics s) + 1\<rparr>)"
  using findAll_consistent [of props clock pulls]
  by (simp add: metrics_consistent_def [of "metrics (findAll props clock pulls)"]
      findAll_prsProcessed processPull_consistent processPull_skipped)

theorem C10_metrics_invariant_witness:
  "metrics_consistent (metrics initial_state)
   \<and> metrics_consistent (metrics (processPull skip_props (days 100) skipped_pull initial_state))
   \<and> hasSkipLabel skip_props (pr_labels skipped_pull)
   \<and> metrics (processPull skip_props (days 100) skipped_pull initial_state)
       = \<lparr>prsProcessed = 1, skipped = 1, stalePrs = 0, staleDueToChangesRequested = 0,
          staleDueToBuildFailing = 0, staleDueToMergeConflicts = 0, warned = 0, closed = 0\<rparr>"
proof -
  have i: "metrics_consistent (metrics initial_state)"
    by (rule initial_consistent)
  have l: "hasSkipLabel skip_props (pr_labels skipped_pull)"
    by code_simp
  have m: "(metrics initial_state)\<lparr>prsProcessed := prsProcessed (metrics initial_state) + 1,
                                    skipped := skipped (metrics initial_state) + 1\<rparr>
             = \<lparr>prsProcessed = 1, skipped = 1, stalePrs = 0, staleDueToChangesRequested = 0,
                staleDueToBuildFailing = 0, staleDueToMergeConflicts = 0, warned = 0, closed = 0\<rparr>"
    by (simp add: initial_state_def initial_metrics_def)
  note t = C10_metrics_invariant [of skip_props "\<lambda>n. days 100" "[]" initial_state "days 100"
      skipped_pull]
  from t have c: "metrics_consistent (metrics initial_state)
      \<longrightarrow> metrics_consistent (metrics (processPull skip_props (days 100) skipped_pull initial_state))"
    and k: "hasSkipLabel skip_props (pr_labels skipped_pull) \<longrightarrow>
        metrics (processPull skip_props (days 100) skipped_pull initial_state)
          = (metrics initial_state)\<lparr>prsProcessed := prsProcessed (metrics initial_state) + 1,
                         skipped := skipped (metrics initial_state) + 1\<rparr>"
    by blast+
  from c i have c': "metrics_consistent (metrics (processPull skip_props (days 100) skipped_pull initial_state))"
    by blast
  from k l m have k': "metrics (processPull skip_props (days 100) skipped_pull initial_state)
       = \<lparr>prsProcessed = 1, skipped = 1, stalePrs = 0, staleDueToChangesRequested = 0,
          staleDueToBuildFailing = 0, staleDueToMergeConflicts = 0, warned = 0, closed = 0\<rparr>"
    by simp
  from i c' l k' show ?thesis by blast
qed

subsection \<open>Dry run\<close>

lemma dryRun_irrelevant [simp]:
  "hasSkipLabel (props\<lparr>dryRun := b\<rparr>) ls = hasSkipLabel props ls"
  "stale (props\<lparr>dryRun := b\<rparr>) now t = stale props now t"
  "outOfGracePeriod (props\<lparr>dryRun := b\<rparr>) now t = outOfGracePeriod props now t"
  "this_mergeConflictWarningDays (props\<lparr>dryRun := b\<rparr>) = this_mergeConflictWarningDays props"
  "buildFailTime (props\<lparr>dryRun := b\<rparr>) failing = buildFailTime props failing"
  "extractFacts (props\<lparr>dryRun := b\<rparr>) p = extractFacts props p"
  by (simp_all add: hasSkipLabel_def stale_def outOfGracePeriod_def
      this_mergeConflictWarningDays_def buildFailTime_def extractFacts_def)

lemma resolveAction_dryRun [simp]:
  "resolveAction (props\<lparr>dryRun := b\<rparr>) now st ws r = resolveAction props now st ws r"
  by (simp add: resolveAction_def Let_def cong: if_cong)

lemma warnText_dryRun [simp]:
  "warnText (props\<lparr>dryRun := b\<rparr>) v = warnText props v"
  by (simp add: warnText_def split: option.splits)

lemma mirrors_addComment:
  "mirrors d s \<Longrightarrow>
     mirrors (addComment (props\<lparr>dryRun := True\<rparr>) n body d)
       (addComment (props\<lparr>dryRun := False\<rparr>) n body s)"
  by (simp add: mirrors_def addComment_def)

lemma mirrors_addLabels:
  "mirrors d s \<Longrightarrow>
     mirrors (addLabels (props\<lparr>dryRun := True\<rparr>) n ls d)
       (addLabels (props\<lparr>dryRun := False\<rparr>) n ls s)"
  by (simp add: mirrors_def addLabels_def)

lemma mirrors_closeIssue:
  "mirrors d s \<Longrightarrow>
     mirrors (closeIssue (props\<lparr>dryRun := True\<rparr>) n d) (closeIssue (props\<lparr>dryRun := False\<rparr>) n s)"
  by (simp add: mirrors_def closeIssue_def)

lemma mirrors_metrics_update:
  "mirrors d s \<Longrightarrow> mirrors (d\<lparr>metrics := f (metrics d)\<rparr>) (s\<lparr>metrics := f (metrics s)\<rparr>)"
  by (simp add: mirrors_def)

lemma mirrors_addMergeConflictWarning:
  "mirrors d s \<Longrightarrow>
     mirrors (addMergeConflictWarning (props\<lparr>dryRun := True\<rparr>) n d)
       (addMergeConflictWarning (props\<lparr>dryRun := False\<rparr>) n s)"
  by (simp add: addMergeConflictWarning_def Let_def mirrors_addComment)

lemma mirrors_performAction:
  assumes "mirrors d s"
  shows "mirrors (performAction (props\<lparr>dryRun := True\<rparr>) n a v d)
           (performAction (props\<lparr>dryRun := False\<rparr>) n a v s)"
proof (cases a)
  case Nothing
  with assms show ?thesis by (simp add: performAction_def)
next
  case Warn
  have "mirrors (d\<lparr>metrics := (\<lambda>m. m\<lparr>warned := warned m + 1\<rparr>) (metrics d)\<rparr>)
          (s\<lparr>metrics := (\<lambda>m. m\<lparr>warned := warned m + 1\<rparr>) (metrics s)\<rparr>)"
    using assms by (rule mirrors_metrics_update)
  then show ?thesis
    using Warn by (simp add: performAction_def Let_def mirrors_addComment)
next
  case Close
  have "mirrors (d\<lparr>metrics := (\<lambda>m. m\<lparr>closed := closed m + 1\<rparr>) (metrics d)\<rparr>)
          (s\<lparr>metrics := (\<lambda>m. m\<lparr>closed := closed m + 1\<rparr>) (metrics s)\<rparr>)"
    using assms by (rule mirrors_metrics_update)
  then show ?thesis
    using Close
    by (simp add: performAction_def Let_def mirrors_addComment mirrors_addLabels
        mirrors_closeIssue split: option.splits)
qed

lemma mirrors_classify:
  assumes "mirrors d s"
  shows "mirrors (snd (classify (props\<lparr>dryRun := True\<rparr>) now n rs lc bt mc d))
           (snd (classify (props\<lparr>dryRun := False\<rparr>) now n rs lc bt mc s))"
  using assms mirrors_metrics_update [OF assms, of "\<lambda>m. m\<lparr>staleDueToChangesRequested := staleDueToChangesRequested m + 1\<rparr>"]
    mirrors_metrics_update [OF assms, of "\<lambda>m. m\<lparr>staleDueToBuildFailing := staleDueToBuildFailing m + 1\<rparr>"]
    mirrors_metrics_update [OF assms, of "\<lambda>m. m\<lparr>staleDueToMergeConflicts := staleDueToMergeConflicts m + 1\<rparr>"]
    mirrors_addMergeConflictWarning [OF assms, of props n]
  by (simp add: classify_def)

lemma fst_classifyPull_dryRun:
  "fst (classifyPull (props\<lparr>dryRun := b\<rparr>) now p d) = fst (classifyPull props now p s)"
  by (simp add: classifyPull_def Let_def fst_classify)

lemma mirrors_counted: "mirrors d s \<Longrightarrow> mirrors (counted d) (counted s)"
  by (simp add: mirrors_def counted_def)

lemma mirrors_countedStale: "mirrors d s \<Longrightarrow> mirrors (countedStale d) (countedStale s)"
  by (simp add: mirrors_def countedStale_def)

lemma mirrors_classifyPull:
  "mirrors d s \<Longrightarrow>
     mirrors (snd (classifyPull (props\<lparr>dryRun := True\<rparr>) now p d))
       (snd (classifyPull (props\<lparr>dryRun := False\<rparr>) now p s))"
  by (simp add: classifyPull_def Let_def mirrors_classify mirrors_counted)

lemma mirrors_processPull:
  assumes "mirrors d s"
  shows "mirrors (processPull (props\<lparr>dryRun := True\<rparr>) now p d)
           (processPull (props\<lparr>dryRun := False\<rparr>) now p s)"
proof (cases "hasSkipLabel props (pr_labels p)")
  case True
  have "mirrors
          (d\<lparr>metrics := (\<lambda>m. m\<lparr>prsProcessed := prsProcessed m + 1, skipped := skipped m + 1\<rparr>) (metrics d)\<rparr>)
          (s\<lparr>metrics := (\<lambda>m. m\<lparr>prsProcessed := prsProcessed m + 1, skipped := skipped m + 1\<rparr>) (metrics s)\<rparr>)"
    using assms by (rule mirrors_metrics_update)
  then show ?thesis
    using True by (simp add: processPull_def Let_def)
next
  case False
  let ?D = "props\<lparr>dryRun := True\<rparr>" and ?R = "props\<lparr>dryRun := False\<rparr>"
  have nd: "\<not> hasSkipLabel ?D (pr_labels p)" and nr: "\<not> hasSkipLabel ?R (pr_labels p)"
    using False by simp_all
  have eq: "fst (classifyPull ?D now p d) = fst (classifyPull ?R now p s)"
    using fst_classifyPull_dryRun [where props = props and b = True and d = d and s = s]
      fst_classifyPull_dryRun [where props = props and b = False and d = s and s = s]
    by simp
  have m: "mirrors (snd (classifyPull ?D now p d)) (snd (classifyPull ?R now p s))"
    using assms by (rule mirrors_classifyPull)
  show ?thesis
  proof (cases "fst (classifyPull ?R now p s)")
    case None
    with eq have "fst (classifyPull ?D now p d) = None"
      by simp
    from processPull_no_verdict [OF nd this] processPull_no_verdict [OF nr None] m
    show ?thesis by simp
  next
    case (Some st)
    with eq have "fst (classifyPull ?D now p d) = Some st"
      by simp
    from processPull_verdict [OF nd this] processPull_verdict [OF nr Some]
      mirrors_performAction [OF mirrors_countedStale [OF m]]
    show ?thesis by simp
  qed
qed

lemma mirrors_fold:
  "mirrors d s \<Longrightarrow>
     mirrors (fold (\<lambda>p. processPull (props\<lparr>dryRun := True\<rparr>) (clock (pr_number p)) p) ps d)
       (fold (\<lambda>p. processPull (props\<lparr>dryRun := False\<rparr>) (clock (pr_number p)) p) ps s)"
  by (induction ps arbitrary: d s) (simp_all add: mirrors_processPull)

lemma mirrors_findAll:
  "mirrors (findAll (props\<lparr>dryRun := True\<rparr>) clock pulls)
     (findAll (props\<lparr>dryRun := False\<rparr>) clock pulls)"
  unfolding findAll_def
  by (rule mirrors_fold) (simp add: mirrors_def initial_state_def)

text \<open>
  Claim C9.  In dry-run mode each of the three mutating operations sends no call and prints
  the line of the call that it would have sent.  Over a whole run, with everything else the
  same, the dry run sends no call at all, its log is, line by line, the list of calls that the
  real run sends, and its counters are those of the real run.
\<close>

theorem C9_dry_run:
  "addComment (props\<lparr>dryRun := True\<rparr>) n body s
     = s\<lparr>dry_log := dry_log s @ [intendedCall (CreateComment n body)]\<rparr>
   \<and> addLabels (props\<lparr>dryRun := True\<rparr>) n labels s
     = s\<lparr>dry_log := dry_log s @ [intendedCall (AddLabels n labels)]\<rparr>
   \<and> closeIssue (props\<lparr>dryRun := True\<rparr>) n s
     = s\<lparr>dry_log := dry_log s @ [intendedCall (UpdateClosed n)]\<rparr>
   \<and> calls (findAll (props\<lparr>dryRun := True\<rparr>) clock pulls) = []
   \<and> dry_log (findAll (props\<lparr>dryRun := True\<rparr>) clock pulls)
     = map intendedCall (calls (findAll (props\<lparr>dryRun := False\<rparr>) clock pulls))
   \<and> metrics (findAll (props\<lparr>dryRun := True\<rparr>) clock pulls)
     = metrics (findAll (props\<lparr>dryRun := False\<rparr>) clock pulls)"
  using mirrors_findAll [of props clock pulls]
  by (simp add: mirrors_def addComment_def addLabels_def closeIssue_def)

theorem C9_dry_run_witness:
  "calls (findAll (label_props\<lparr>dryRun := False\<rparr>) (\<lambda>n. days 100) [overdue_pull, unreviewed_pull])
     = [CreateComment 9 (''<!--STALE PR-->'' @ [CHR 10] @ ''Stale: BUILD FAILING.''),
        CreateComment 11 ''Closing.'', AddLabels 11 [''stale''], UpdateClosed 11]
   \<and> calls (findAll (label_props\<lparr>dryRun := True\<rparr>) (\<lambda>n. days 100) [overdue_pull, unreviewed_pull]) = []
   \<and> dry_log (findAll (label_props\<lparr>dryRun := True\<rparr>) (\<lambda>n. days 100) [overdue_pull, unreviewed_pull])
     = [''9: COMMENT <!--STALE PR-->'' @ [CHR 10] @ ''Stale: BUILD FAILING.'',
        ''11: COMMENT Closing.'', ''11: ADD LABEL stale'', ''11: CLOSE'']
   \<and> metrics (findAll (label_props\<lparr>dryRun := True\<rparr>) (\<lambda>n. days 100) [overdue_pull, unreviewed_pull])
     = \<lparr>prsProcessed = 2, skipped = 0, stalePrs = 2, staleDueToChangesRequested = 1,
        staleDueToBuildFailing = 1, staleDueToMergeConflicts = 0, warned = 1, closed = 1\<rparr>"
proof -
  have r: "calls (findAll (label_props\<lparr>dryRun := False\<rparr>) (\<lambda>n. days 100) [overdue_pull, unreviewed_pull])
     = [CreateComment 9 (''<!--STALE PR-->'' @ [CHR 10] @ ''Stale: BUILD FAILING.''),
        CreateComment 11 ''Closing.'', AddLabels 11 [''stale''], UpdateClosed 11]"
    by code_simp
  have m: "metrics (findAll (label_props\<lparr>dryRun := False\<rparr>) (\<lambda>n. days 100) [overdue_pull, unreviewed_pull])
     = \<lparr>prsProcessed = 2, skipped = 0, stalePrs = 2, staleDueToChangesRequested = 1,
        staleDueToBuildFailing = 1, staleDueToMergeConflicts = 0, warned = 1, closed = 1\<rparr>"
    by code_simp
  have l: "map intendedCall
       [CreateComment 9 (''<!--STALE PR-->'' @ [CHR 10] @ ''Stale: BUILD FAILING.''),
        CreateComment 11 ''Closing.'', AddLabels 11 [''stale''], UpdateClosed 11]
     = [''9: COMMENT <!--STALE PR-->'' @ [CHR 10] @ ''Stale: BUILD FAILING.'',
        ''11: COMMENT Closing.'', ''11: ADD LABEL stale'', ''11: CLOSE'']"
    by code_simp
  note t = C9_dry_run [of label_props _ _ _ _ "\<lambda>n. days 100" "[overdue_pull, unreviewed_pull]"]
  from t have
    "calls (findAll (label_props\<lparr>dryRun := True\<rparr>) (\<lambda>n. days 100) [overdue_pull, unreviewed_pull]) = []"
    "dry_log (findAll (label_props\<lparr>dryRun := True\<rparr>) (\<lambda>n. days 100) [overdue_pull, unreviewed_pull])
      = map intendedCall (calls (findAll (label_props\<lparr>dryRun := False\<rparr>) (\<lambda>n. days 100) [overdue_pull, unreviewed_pull]))"
    "metrics (findAll (label_props\<lparr>dryRun := True\<rparr>) (\<lambda>n. days 100) [overdue_pull, unreviewed_pull])
      = metrics (findAll (label_props\<lparr>dryRun := False\<rparr>) (\<lambda>n. days 100) [overdue_pull, unreviewed_pull])"
    by blast+
  with r m l show ?thesis by simp
qed

end
